theory Spec2Isabelle
  imports Complex_Main
begin

section \<open>Conventions of the embedding\<close>

text \<open>
  The traffic pipeline is Python over \<open>numpy\<close>/\<open>pandas\<close>. A Python \<open>float\<close> is modelled
  as a \<^typ>\<open>real\<close> (exact arithmetic: rounding, overflow and infinities of IEEE doubles are
  not represented), a Python \<open>int\<close> as an \<^typ>\<open>int\<close>. A value that pandas stores as
  \<open>NaN\<close> (or that the scanner stores as \<open>None\<close>) is \<open>None\<close> of an option type, so that
  ``unknown'' is a value of its own and arithmetic on it stays unknown.
  Exceptions that leave a function are values of \<open>py_error\<close> on the left of a sum.
\<close>

datatype py_error = IndexError | ValueError | ZeroDivisionError | AttributeError | TypeError

text \<open>Python's \<open>int(x)\<close> on a float truncates towards zero.\<close>

definition py_int :: "real \<Rightarrow> int" where
  "py_int x = (if 0 \<le> x then \<lfloor>x\<rfloor> else \<lceil>x\<rceil>)"

section \<open>Temporal synthesis and colour mapping (visualize\_time\_machine.py)\<close>

subsection \<open>The hourly multiplier\<close>

text \<open>
  \<open>get_time_multiplier\<close>, branch by branch in the order of the \<open>if\<close>/\<open>elif\<close> chain.
  The chained comparison \<open>3 <= hour < 6\<close> is the conjunction of its two halves. The
  last \<open>else\<close> is reached by every hour that no band takes.
\<close>

definition get_time_multiplier :: "int \<Rightarrow> real" where
  "get_time_multiplier hour =
     (if 3 \<le> hour \<and> hour < 6 then 0.3
      else if 7 \<le> hour \<and> hour < 9 then 2.0
      else if 9 \<le> hour \<and> hour < 10 then 1.5
      else if 10 \<le> hour \<and> hour < 16 then 1.0
      else if 16 \<le> hour \<and> hour < 17 then 1.5
      else if 17 \<le> hour \<and> hour < 20 then 2.5
      else if 20 \<le> hour \<and> hour < 23 then 1.2
      else if 23 \<le> hour \<or> hour < 3 then 0.5
      else 1.0)"

text \<open>
  The step function of the specification's words (section 4.4), kept apart from the code's
  function so that the two can be compared: \<open>[3,6)=0.3\<close>, \<open>[6,9)=2.0\<close>, \<open>[9,10)=1.5\<close>,
  \<open>[10,16)=1.0\<close>, \<open>[16,17)=1.5\<close>, \<open>[17,20)=2.5\<close>, \<open>[20,23)=1.2\<close>, and \<open>0.5\<close> on
  \<open>[23,24)\<close> and \<open>[0,3)\<close>.
\<close>

definition spec_curve :: "int \<Rightarrow> real" where
  "spec_curve hour =
     (if 3 \<le> hour \<and> hour < 6 then 0.3
      else if 6 \<le> hour \<and> hour < 9 then 2.0
      else if 9 \<le> hour \<and> hour < 10 then 1.5
      else if 10 \<le> hour \<and> hour < 16 then 1.0
      else if 16 \<le> hour \<and> hour < 17 then 1.5
      else if 17 \<le> hour \<and> hour < 20 then 2.5
      else if 20 \<le> hour \<and> hour < 23 then 1.2
      else 0.5)"

subsection \<open>Hexadecimal colour strings\<close>

text \<open>
  \<open>rgb_to_hex\<close> formats each channel with \<open>{:02x}\<close>: lower-case hexadecimal digits,
  padded with zeros on the left to a width of two; a longer number keeps all its digits,
  and a negative one is written with a minus sign, which counts towards the width.
\<close>

definition hex_digit :: "nat \<Rightarrow> char" where
  "hex_digit d = ''0123456789abcdef'' ! (d mod 16)"

fun hex_digits :: "nat \<Rightarrow> string" where
  "hex_digits n = (if n < 16 then [hex_digit n] else hex_digits (n div 16) @ [hex_digit n])"

definition format_02x :: "int \<Rightarrow> string" where
  "format_02x v =
     (if v < 0 then CHR ''-'' # hex_digits (nat (- v))
      else (let ds = hex_digits (nat v) in replicate (2 - length ds) CHR ''0'' @ ds))"

definition rgb_to_hex :: "int \<Rightarrow> int \<Rightarrow> int \<Rightarrow> string" where
  "rgb_to_hex r g b = CHR ''#'' # format_02x r @ format_02x g @ format_02x b"

subsection \<open>The gradient\<close>

text \<open>
  \<open>get_smooth_gradient_color\<close>. The congestion value is a float that may be \<open>NaN\<close>
  (\<open>None\<close> here); \<open>pd.isna\<close> is tested before anything is computed. Dividing a Python
  float by a zero \<open>max_congestion\<close> raises. The three branches use the literals of the
  source: the thresholds \<open>0.33\<close> and \<open>0.66\<close> and the divisors \<open>0.33\<close>, \<open>0.33\<close>, \<open>0.34\<close>.
\<close>

definition get_smooth_gradient_color :: "real option \<Rightarrow> real \<Rightarrow> py_error + string" where
  "get_smooth_gradient_color congestion max_congestion =
     (case congestion of
        None \<Rightarrow> Inr ''#666666''
      | Some c \<Rightarrow>
          if max_congestion = 0 then Inl ZeroDivisionError
          else
            (let normalized = min (c / max_congestion) 1.0 in
             if normalized < 0.33 then
               (let t = normalized / 0.33
                in Inr (rgb_to_hex 0 (py_int (255 * t)) 255))
             else if normalized < 0.66 then
               (let t = (normalized - 0.33) / 0.33
                in Inr (rgb_to_hex (py_int (255 * t)) 255 (py_int (255 * (1 - t)))))
             else
               (let t = (normalized - 0.66) / 0.34
                in Inr (rgb_to_hex 255 (py_int (255 * (1 - t))) 0))))"

subsection \<open>The 24 hourly snapshots\<close>

text \<open>
  A loop that appends one result per element and is left by the first exception:
  the results so far are lost and the exception is the outcome.
\<close>

fun map_result :: "('a \<Rightarrow> py_error + 'b) \<Rightarrow> 'a list \<Rightarrow> py_error + 'b list" where
  "map_result f [] = Inr []"
| "map_result f (x # xs) =
     (case f x of
        Inl e \<Rightarrow> Inl e
      | Inr y \<Rightarrow> (case map_result f xs of Inl e \<Rightarrow> Inl e | Inr ys \<Rightarrow> Inr (y # ys)))"

text \<open>
  \<open>generate_hourly_snapshots\<close>. Of the road table only the column \<open>congestion_level\<close>
  is read (one float per road, \<open>NaN\<close> where unknown); geometry and road class are copied
  unchanged into every snapshot and are left out. \<open>base_congestion * multiplier\<close> multiplies
  element by element and keeps \<open>NaN\<close>; nothing else is done to the product. The colour is
  computed with the default \<open>max_congestion = 0.6\<close>. A snapshot is the pair of columns
  \<open>congestion_level\<close> and \<open>color\<close>, row by row; the result maps each hour of
  \<open>range(24)\<close> to its snapshot, in insertion order.
\<close>

definition hourly_congestion :: "real option list \<Rightarrow> int \<Rightarrow> real option list" where
  "hourly_congestion base_congestion hour =
     map (map_option (\<lambda>c. c * get_time_multiplier hour)) base_congestion"

definition hourly_snapshot :: "real option list \<Rightarrow> int \<Rightarrow> py_error + (real option \<times> string) list" where
  "hourly_snapshot base_congestion hour =
     (let hc = hourly_congestion base_congestion hour in
      case map_result (\<lambda>c. get_smooth_gradient_color c 0.6) hc of
        Inl e \<Rightarrow> Inl e
      | Inr colors \<Rightarrow> Inr (zip hc colors))"

definition generate_hourly_snapshots ::
  "real option list \<Rightarrow> py_error + (int \<times> (real option \<times> string) list) list" where
  "generate_hourly_snapshots base_congestion =
     map_result
       (\<lambda>hour. case hourly_snapshot base_congestion hour of
                 Inl e \<Rightarrow> Inl e
               | Inr snap \<Rightarrow> Inr (hour, snap))
       [0..23]"

text \<open>
  The field of one hour, read back from the result: the column \<open>congestion_level\<close> of the
  snapshot stored under that hour (\<open>None\<close> when the generation raised or the hour is not a
  key).
\<close>

definition snapshot_levels ::
  "py_error + (int \<times> (real option \<times> string) list) list \<Rightarrow> int \<Rightarrow> real option list option" where
  "snapshot_levels res hour =
     (case res of
        Inl e \<Rightarrow> None
      | Inr snaps \<Rightarrow> map_option (map fst) (map_of snaps hour))"

text \<open>The clamp of the specification's contract, \<open>clamp(x, 0, upper_bound)\<close>.\<close>

definition clamp :: "real \<Rightarrow> real \<Rightarrow> real \<Rightarrow> real" where
  "clamp x lo hi = max lo (min hi x)"

section \<open>Grid generation and scanning (scan\_traffic.py)\<close>

subsection \<open>The coordinate grid\<close>

text \<open>
  \<open>np.arange(start, stop, step)\<close> on floats: \<open>ceil((stop - start) / step)\<close> values
  \<open>start + i * step\<close>, none when that count is not positive. The quotient is computed
  on the Python floats that the caller passes, so a zero step raises. No other check is
  made on the arguments.
\<close>

definition np_arange :: "real \<Rightarrow> real \<Rightarrow> real \<Rightarrow> py_error + real list" where
  "np_arange start stop step =
     (if step = 0 then Inl ZeroDivisionError
      else Inr (map (\<lambda>i. start + real i * step) [0..<nat \<lceil>(stop - start) / step\<rceil>]))"

record bbox =
  lat_min :: real
  lat_max :: real
  lon_min :: real
  lon_max :: real

text \<open>
  \<open>generate_grid\<close>: the two ranges, then the comprehension
  \<open>[(lat, lon) for lat in lats for lon in lons]\<close>, row-major.
\<close>

definition generate_grid :: "bbox \<Rightarrow> real \<Rightarrow> py_error + (real \<times> real) list" where
  "generate_grid box spacing =
     (case np_arange (lat_min box) (lat_max box) spacing of
        Inl e \<Rightarrow> Inl e
      | Inr lats \<Rightarrow>
          (case np_arange (lon_min box) (lon_max box) spacing of
             Inl e \<Rightarrow> Inl e
           | Inr lons \<Rightarrow> Inr (concat (map (\<lambda>lat. map (\<lambda>lon. (lat, lon)) lons) lats))))"

subsection \<open>One flow lookup\<close>

text \<open>
  The dictionary that \<open>fetch_congestion\<close> returns, and the row of the table built from
  such dictionaries: a key that the dictionary does not have is \<open>None\<close>.
\<close>

record flow_sample =
  lat :: real
  lon :: real
  current_speed :: "real option"
  free_flow_speed :: "real option"
  congestion_factor :: "real option"

text \<open>
  The body of a response, as far as \<open>fetch_congestion\<close> looks at it.
  A speed is what \<open>flow_data.get("currentSpeed")\<close> returns: \<open>None\<close> when the key is
  absent or its value is \<open>null\<close>, a number, or a value that is no number (a string, a
  list, an object). The flow data is what \<open>data.get("flowSegmentData", {})\<close> returns:
  the empty dictionary when the key is absent, a value that is no object (\<open>null\<close>, a
  list, a string, a number), or an object with its two speeds. The body itself is no
  JSON at all, a JSON value that is no object, or an object.
\<close>

datatype json_speed = Missing | Number real | NotNumber

datatype json_flow = NoFlowKey | FlowNotObject | FlowObject json_speed json_speed

datatype json_body = NotJson | NotObject | JsonObject json_flow

text \<open>
  What one \<open>session.get\<close> can do: raise a \<open>requests.RequestException\<close> (no connection,
  timeout), or return a response with a status code and a body.
\<close>

datatype http_outcome =
    RequestException
  | Response (status_code: nat) (body: json_body)

text \<open>
  The traffic service: the outcome of the \<open>n\<close>-th request of a scan (counted from 0),
  sent for a given point. Any function is a possible service.
\<close>

type_synonym flow_service = "nat \<Rightarrow> real \<times> real \<Rightarrow> http_outcome"

definition invalid_sample :: "real \<Rightarrow> real \<Rightarrow> flow_sample" where
  "invalid_sample la lo =
     \<lparr>lat = la, lon = lo, current_speed = None, free_flow_speed = None,
      congestion_factor = None\<rparr>"

text \<open>
  The test \<open>current_speed is not None and free_flow_speed is not None and
  free_flow_speed > 0\<close> and the two branches after it. The conjunction stops at its
  first false part; comparing a value that is no number with 0 raises a \<open>TypeError\<close>,
  and so does dividing a value that is no number. These exceptions are not
  \<open>RequestException\<close>s, so the \<open>except\<close> clause does not catch them.
\<close>

definition read_speeds :: "real \<Rightarrow> real \<Rightarrow> json_speed \<Rightarrow> json_speed \<Rightarrow> py_error + flow_sample" where
  "read_speeds la lo cur free =
     (case cur of
        Missing \<Rightarrow> Inr (invalid_sample la lo)
      | _ \<Rightarrow>
          (case free of
             Missing \<Rightarrow> Inr (invalid_sample la lo)
           | NotNumber \<Rightarrow> Inl TypeError
           | Number ffs \<Rightarrow>
               if ffs > 0 then
                 (case cur of
                    Number cs \<Rightarrow>
                      Inr \<lparr>lat = la, lon = lo, current_speed = Some cs, free_flow_speed = Some ffs,
                           congestion_factor = Some (max 0.0 (min 1.0 (1 - cs / ffs)))\<rparr>
                  | _ \<Rightarrow> Inl TypeError)
               else Inr (invalid_sample la lo)))"

text \<open>
  The part of \<open>fetch_congestion\<close> after the (possibly repeated) request.
  \<open>raise_for_status\<close> raises an \<open>HTTPError\<close> for every status from 400 to 599, and
  \<open>response.json()\<close> raises a \<open>JSONDecodeError\<close> on a body that is no JSON; both are
  \<open>RequestException\<close>s, and the \<open>except\<close> clause returns the dictionary without a
  congestion factor. Calling \<open>.get\<close> on a value that is no dictionary raises an
  \<open>AttributeError\<close>, which is not caught.
\<close>

definition read_response :: "real \<Rightarrow> real \<Rightarrow> nat \<Rightarrow> json_body \<Rightarrow> py_error + flow_sample" where
  "read_response la lo status data =
     (if 400 \<le> status \<and> status < 600 then Inr (invalid_sample la lo)
      else
        (case data of
           NotJson \<Rightarrow> Inr (invalid_sample la lo)
         | NotObject \<Rightarrow> Inl AttributeError
         | JsonObject flow_data \<Rightarrow>
             (case flow_data of
                NoFlowKey \<Rightarrow> read_speeds la lo Missing Missing
              | FlowNotObject \<Rightarrow> Inl AttributeError
              | FlowObject cur free \<Rightarrow> read_speeds la lo cur free)))"

text \<open>
  The request of \<open>fetch_congestion\<close>, given the service and the number of requests sent
  so far: a status 429 is answered by a pause and one more request, whose outcome
  replaces the first. It returns the outcome that is read and the new number of
  requests.
\<close>

definition get_with_retry :: "flow_service \<Rightarrow> nat \<Rightarrow> real \<times> real \<Rightarrow> http_outcome \<times> nat" where
  "get_with_retry service n p =
     (case service n p of
        RequestException \<Rightarrow> (RequestException, n + 1)
      | Response status data \<Rightarrow>
          if status = 429 then (service (n + 1) p, n + 2)
          else (Response status data, n + 1))"

text \<open>
  \<open>fetch_congestion\<close>: the sample, or the exception that leaves the function, and the
  new number of requests. A request that raises is caught and gives the dictionary
  without a congestion factor.
\<close>

definition fetch_congestion ::
  "flow_service \<Rightarrow> nat \<Rightarrow> real \<Rightarrow> real \<Rightarrow> (py_error + flow_sample) \<times> nat" where
  "fetch_congestion service n la lo =
     (case get_with_retry service n (la, lo) of
        (RequestException, n') \<Rightarrow> (Inr (invalid_sample la lo), n')
      | (Response status data, n') \<Rightarrow> (read_response la lo status data, n'))"

subsection \<open>The scan\<close>

text \<open>
  The loop of \<open>scan_traffic_grid\<close>: one \<open>fetch_congestion\<close> per grid point, in order,
  each result appended. There is no \<open>try\<close> around the call, so an exception that leaves
  \<open>fetch_congestion\<close> leaves the loop and the function, and no table is returned. The
  pauses between requests change no data and are left out. The scan returns the table
  of results, or the exception, and the number of requests it has sent.
\<close>

fun scan_loop ::
  "flow_service \<Rightarrow> nat \<Rightarrow> (real \<times> real) list \<Rightarrow> (py_error + flow_sample list) \<times> nat" where
  "scan_loop service n [] = (Inr [], n)"
| "scan_loop service n ((la, lo) # rest) =
     (case fetch_congestion service n la lo of
        (Inl e, n') \<Rightarrow> (Inl e, n')
      | (Inr result, n') \<Rightarrow>
          (case scan_loop service n' rest of
             (Inl e, n'') \<Rightarrow> (Inl e, n'')
           | (Inr results, n'') \<Rightarrow> (Inr (result # results), n'')))"

definition scan_traffic_grid ::
  "flow_service \<Rightarrow> (real \<times> real) list \<Rightarrow> (py_error + flow_sample list) \<times> nat" where
  "scan_traffic_grid service grid = scan_loop service 0 grid"

section \<open>Inverse-distance interpolation (visualize\_dense\_traffic.py)\<close>

subsection \<open>The neighbour search\<close>

text \<open>
  A distance reported by the neighbour search: a number, or infinity for a neighbour
  that does not exist.
\<close>

datatype edist = Finite real | Infinity

definition sqdist :: "real \<times> real \<Rightarrow> real \<times> real \<Rightarrow> real" where
  "sqdist a b = (fst a - fst b)\<^sup>2 + (snd a - snd b)\<^sup>2"

text \<open>
  \<open>cKDTree(data).query(x, k)\<close> for one point \<open>x\<close>, as the library documents it: the \<open>k\<close>
  points of \<open>data\<close> nearest to \<open>x\<close> in Euclidean distance, nearest first, each with its
  distance and its index in \<open>data\<close>; when \<open>data\<close> has fewer than \<open>k\<close> points the missing
  neighbours have an infinite distance and the index \<open>len(data)\<close>. Points at equal
  distance are taken in index order here (the library leaves their order open; no
  theorem below depends on it).
\<close>

definition kd_query :: "(real \<times> real) list \<Rightarrow> real \<times> real \<Rightarrow> nat \<Rightarrow> (edist \<times> nat) list" where
  "kd_query data x k =
     (let found = take k (sort_key fst (zip (map (\<lambda>p. sqdist p x) data) [0..<length data]))
      in map (\<lambda>(d2, i). (Finite (sqrt d2), i)) found
         @ replicate (k - length found) (Infinity, length data))"

text \<open>
  The query for all road midpoints at once. The library refuses an empty array of
  query points (its last axis is not of length 2) and a \<open>k\<close> below 1.
\<close>

definition tree_query ::
  "(real \<times> real) list \<Rightarrow> (real \<times> real) list \<Rightarrow> nat \<Rightarrow> py_error + (edist \<times> nat) list list" where
  "tree_query data xs k =
     (if xs = [] \<or> k = 0 then Inl ValueError
      else Inr (map (\<lambda>x. kd_query data x k) xs))"

subsection \<open>The weighted average of one road\<close>

text \<open>
  The weight of a neighbour: \<open>1.0 / np.maximum(distance, 1e-10)\<close>; an infinite distance
  stays infinite under the maximum and its reciprocal is 0.
\<close>

definition idw_weight :: "edist \<Rightarrow> real" where
  "idw_weight d = (case d of Infinity \<Rightarrow> 0 | Finite x \<Rightarrow> 1.0 / max x (1 / 10 ^ 10))"

text \<open>
  The body of the loop over the roads. \<open>traffic_congestion[indices[i]]\<close> comes first and
  raises when an index is not below the length of the array. Then the weights are
  normalised by their sum and the weighted sum is the result; a sum of weights that is
  zero although there are neighbours makes every weight, and the result, \<open>NaN\<close>.
\<close>

definition idw_congestion :: "real list \<Rightarrow> (edist \<times> nat) list \<Rightarrow> py_error + real option" where
  "idw_congestion traffic_congestion nbrs =
     (if list_ex (\<lambda>i. length traffic_congestion \<le> i) (map snd nbrs) then Inl IndexError
      else
        (let neighbor_congestion = map (\<lambda>i. traffic_congestion ! i) (map snd nbrs);
             weights = map idw_weight (map fst nbrs);
             total = sum_list weights
         in if nbrs \<noteq> [] \<and> total = 0 then Inr None
            else Inr (Some (sum_list
                   (map (\<lambda>(c, w). c * w) (zip neighbor_congestion (map (\<lambda>w. w / total) weights)))))))"

subsection \<open>The whole interpolation\<close>

text \<open>
  \<open>interpolate_traffic_idw\<close>. The roads are given by their midpoints \<open>(lat, lon)\<close> (the
  centroids, which the geometry library computes); the traffic table is the table that
  the scan wrote. Rows without a congestion factor are dropped first; the result is the
  new column \<open>congestion_level\<close>, one float per road, or the exception that ended the
  call.
\<close>

definition traffic_valid :: "flow_sample list \<Rightarrow> flow_sample list" where
  "traffic_valid traffic_df = filter (\<lambda>s. congestion_factor s \<noteq> None) traffic_df"

definition traffic_coords :: "flow_sample list \<Rightarrow> (real \<times> real) list" where
  "traffic_coords traffic_df = map (\<lambda>s. (lat s, lon s)) (traffic_valid traffic_df)"

definition traffic_congestion :: "flow_sample list \<Rightarrow> real list" where
  "traffic_congestion traffic_df = map (\<lambda>s. the (congestion_factor s)) (traffic_valid traffic_df)"

definition interpolate_traffic_idw ::
  "(real \<times> real) list \<Rightarrow> flow_sample list \<Rightarrow> nat \<Rightarrow> py_error + real option list" where
  "interpolate_traffic_idw road_coords traffic_df k =
     (case tree_query (traffic_coords traffic_df) road_coords k of
        Inl e \<Rightarrow> Inl e
      | Inr neighbours \<Rightarrow> map_result (idw_congestion (traffic_congestion traffic_df)) neighbours)"

text \<open>
  The neighbours of one road and their congestion values, as the loop body reads them.
\<close>

definition road_neighbours :: "flow_sample list \<Rightarrow> real \<times> real \<Rightarrow> nat \<Rightarrow> (edist \<times> nat) list" where
  "road_neighbours traffic_df x k = kd_query (traffic_coords traffic_df) x k"

definition neighbor_congestion :: "flow_sample list \<Rightarrow> real \<times> real \<Rightarrow> nat \<Rightarrow> real list" where
  "neighbor_congestion traffic_df x k =
     map (\<lambda>i. traffic_congestion traffic_df ! i) (map snd (road_neighbours traffic_df x k))"

definition neighbor_weights :: "flow_sample list \<Rightarrow> real \<times> real \<Rightarrow> nat \<Rightarrow> real list" where
  "neighbor_weights traffic_df x k =
     (let weights = map idw_weight (map fst (road_neighbours traffic_df x k))
      in map (\<lambda>w. w / sum_list weights) weights)"

section \<open>Properties of the temporal synthesis\<close>

subsection \<open>Auxiliary facts\<close>

lemma map_result_total:
  "(\<And>x. x \<in> set xs \<Longrightarrow> f x = Inr (g x)) \<Longrightarrow> map_result f xs = Inr (map g xs)"
  by (induction xs) simp_all

lemma default_color_total:
  "get_smooth_gradient_color c 0.6 = Inr (projr (get_smooth_gradient_color c 0.6))"
  by (cases c) (simp_all add: get_smooth_gradient_color_def Let_def)

lemma hourly_snapshot_total:
  "hourly_snapshot base hour =
     Inr (zip (hourly_congestion base hour)
            (map (\<lambda>c. projr (get_smooth_gradient_color c 0.6)) (hourly_congestion base hour)))"
proof -
  have "map_result (\<lambda>c. get_smooth_gradient_color c 0.6) (hourly_congestion base hour) =
        Inr (map (\<lambda>c. projr (get_smooth_gradient_color c 0.6)) (hourly_congestion base hour))"
    by (rule map_result_total) (rule default_color_total)
  then show ?thesis by (simp add: hourly_snapshot_def Let_def)
qed

lemma generate_hourly_snapshots_total:
  "generate_hourly_snapshots base =
     Inr (map (\<lambda>hour. (hour, projr (hourly_snapshot base hour))) [0..23])"
  unfolding generate_hourly_snapshots_def
  by (rule map_result_total) (simp add: hourly_snapshot_total)

lemma map_of_tabulate:
  "k \<in> set ks \<Longrightarrow> map_of (map (\<lambda>k. (k, F k)) ks) k = Some (F k)"
  by (induction ks) auto

subsection \<open>C1: the hourly field\<close>

text \<open>
  C1 states that the field of hour \<open>h\<close> is \<open>clamp(base[t] * curve[h], 0, upper_bound)\<close>
  and never exceeds the ceiling (default 1.0). The code multiplies and stores the
  product; no clamp is applied anywhere. With a base value of 0.8 the field of hour 17
  (multiplier 2.5) holds 2, which is above the ceiling 1.0 and is not the clamped
  product 1.
\<close>

theorem hourly_value_exceeds_ceiling:
  "snapshot_levels (generate_hourly_snapshots [Some 0.8]) 17 = Some [Some 2]
   \<and> clamp (0.8 * get_time_multiplier 17) 0 1.0 = 1
   \<and> (2::real) > 1.0"
  by code_simp

text \<open>
  C1, amended: for every base field and every hour from 0 to 23, the field stored for
  that hour is the base field multiplied, target by target, by the multiplier of the
  hour, with no ceiling applied; an unknown base value stays unknown.
\<close>

theorem hourly_field_is_unclamped_product:
  assumes "0 \<le> hour" and "hour \<le> 23"
  shows "snapshot_levels (generate_hourly_snapshots base) hour =
           Some (map (map_option (\<lambda>c. c * get_time_multiplier hour)) base)"
proof -
  have mem: "hour \<in> set [0..23]" using assms by simp
  have "map_of (map (\<lambda>h. (h, projr (hourly_snapshot base h))) [0..23]) hour =
        Some (projr (hourly_snapshot base hour))"
    using mem by (rule map_of_tabulate)
  then have "snapshot_levels (generate_hourly_snapshots base) hour =
        Some (map fst (projr (hourly_snapshot base hour)))"
    by (simp add: snapshot_levels_def generate_hourly_snapshots_total)
  also have "map fst (projr (hourly_snapshot base hour)) = hourly_congestion base hour"
    by (simp add: hourly_snapshot_total)
  finally show ?thesis by (simp add: hourly_congestion_def)
qed

text \<open>
  The amended C1 at a concrete field: a known and an unknown target at hour 17.
\<close>

theorem hourly_field_is_unclamped_product_witness:
  "snapshot_levels (generate_hourly_snapshots [Some 0.8, None]) 17 = Some [Some 2, None]"
proof -
  have "snapshot_levels (generate_hourly_snapshots [Some 0.8, None]) 17 =
          Some (map (map_option (\<lambda>c. c * get_time_multiplier 17)) [Some 0.8, None])"
    by (rule hourly_field_is_unclamped_product) simp_all
  then show ?thesis by (simp add: get_time_multiplier_def)
qed

subsection \<open>C2: the multiplier curve\<close>

text \<open>
  C2 states that the curve is the step function of the specification, with
  \<open>get_time_multiplier(6) = 2.0\<close>. In the code the band after \<open>3 <= hour < 6\<close> starts at
  7 (as the docstring has it: ``7-9 AM: 2.0x''), so hour 6 is taken by no band and
  reaches the final \<open>else\<close>, which returns 1.0.
\<close>

theorem multiplier_at_hour_6:
  "get_time_multiplier 6 = 1.0 \<and> spec_curve 6 = 2.0 \<and> get_time_multiplier 6 \<noteq> spec_curve 6"
  by (simp add: get_time_multiplier_def spec_curve_def)

text \<open>
  C2, amended: the multiplier is 0.3 on \<open>[3,6)\<close>, 2.0 on \<open>[7,9)\<close>, 1.5 on \<open>[9,10)\<close>,
  1.0 on \<open>[10,16)\<close>, 1.5 on \<open>[16,17)\<close>, 2.5 on \<open>[17,20)\<close>, 1.2 on \<open>[20,23)\<close> and 0.5
  from 23 on and before 3; at every hour other than 6 this is the step function of the
  specification. Nothing is stated about hour 6, which no band of the code covers.
\<close>

theorem multiplier_bands:
  "(3 \<le> hour \<and> hour < 6 \<longrightarrow> get_time_multiplier hour = 0.3)
   \<and> (7 \<le> hour \<and> hour < 9 \<longrightarrow> get_time_multiplier hour = 2.0)
   \<and> (9 \<le> hour \<and> hour < 10 \<longrightarrow> get_time_multiplier hour = 1.5)
   \<and> (10 \<le> hour \<and> hour < 16 \<longrightarrow> get_time_multiplier hour = 1.0)
   \<and> (16 \<le> hour \<and> hour < 17 \<longrightarrow> get_time_multiplier hour = 1.5)
   \<and> (17 \<le> hour \<and> hour < 20 \<longrightarrow> get_time_multiplier hour = 2.5)
   \<and> (20 \<le> hour \<and> hour < 23 \<longrightarrow> get_time_multiplier hour = 1.2)
   \<and> (23 \<le> hour \<or> hour < 3 \<longrightarrow> get_time_multiplier hour = 0.5)
   \<and> (hour \<noteq> 6 \<longrightarrow> get_time_multiplier hour = spec_curve hour)"
proof -
  have bands:
    "3 \<le> hour \<and> hour < 6 \<longrightarrow> get_time_multiplier hour = 0.3"
    "7 \<le> hour \<and> hour < 9 \<longrightarrow> get_time_multiplier hour = 2.0"
    "9 \<le> hour \<and> hour < 10 \<longrightarrow> get_time_multiplier hour = 1.5"
    "10 \<le> hour \<and> hour < 16 \<longrightarrow> get_time_multiplier hour = 1.0"
    "16 \<le> hour \<and> hour < 17 \<longrightarrow> get_time_multiplier hour = 1.5"
    "17 \<le> hour \<and> hour < 20 \<longrightarrow> get_time_multiplier hour = 2.5"
    "20 \<le> hour \<and> hour < 23 \<longrightarrow> get_time_multiplier hour = 1.2"
    "23 \<le> hour \<or> hour < 3 \<longrightarrow> get_time_multiplier hour = 0.5"
    by (simp_all add: get_time_multiplier_def)
  have elsewhere: "hour \<noteq> 6 \<longrightarrow> get_time_multiplier hour = spec_curve hour"
    by (simp add: get_time_multiplier_def spec_curve_def)
  show ?thesis by (intro conjI bands elsewhere)
qed

text \<open>
  The amended C2 at hours 4, 7, 8, 12 and 23, and the agreement with the specified
  curve at hour 7.
\<close>

theorem multiplier_bands_witness:
  "get_time_multiplier 4 = 0.3 \<and> get_time_multiplier 7 = 2.0 \<and> get_time_multiplier 8 = 2.0
   \<and> get_time_multiplier 12 = 1.0 \<and> get_time_multiplier 23 = 0.5
   \<and> get_time_multiplier 7 = spec_curve 7"
proof -
  have a: "get_time_multiplier 4 = 0.3"
    using multiplier_bands [of 4, THEN conjunct1] by simp
  have b: "get_time_multiplier 7 = 2.0"
    using multiplier_bands [of 7, THEN conjunct2, THEN conjunct1] by simp
  have c: "get_time_multiplier 8 = 2.0"
    using multiplier_bands [of 8, THEN conjunct2, THEN conjunct1] by simp
  have d: "get_time_multiplier 12 = 1.0"
    using multiplier_bands [of 12, THEN conjunct2, THEN conjunct2, THEN conjunct2, THEN conjunct1]
    by simp
  have e: "get_time_multiplier 23 = 0.5"
    using multiplier_bands [of 23, THEN conjunct2, THEN conjunct2, THEN conjunct2,
      THEN conjunct2, THEN conjunct2, THEN conjunct2, THEN conjunct2, THEN conjunct1]
    by simp
  have f: "get_time_multiplier 7 = spec_curve 7"
    using multiplier_bands [of 7, THEN conjunct2, THEN conjunct2, THEN conjunct2,
      THEN conjunct2, THEN conjunct2, THEN conjunct2, THEN conjunct2, THEN conjunct2]
    by simp
  show ?thesis by (intro conjI a b c d e f)
qed

section \<open>Properties of the colour mapper\<close>

subsection \<open>Auxiliary facts\<close>

lemma format_02x_0: "format_02x 0 = ''00''"
  by code_simp

lemma format_02x_255: "format_02x 255 = ''ff''"
  by code_simp

lemma py_int_0: "py_int 0 = 0"
  by (simp add: py_int_def)

lemma py_int_255: "py_int 255 = 255"
  by (simp add: py_int_def)

lemma color_blue: "rgb_to_hex 0 0 255 = ''#0000ff''"
  by (simp add: rgb_to_hex_def format_02x_0 format_02x_255)

lemma color_cyan: "rgb_to_hex 0 255 255 = ''#00ffff''"
  by (simp add: rgb_to_hex_def format_02x_0 format_02x_255)

lemma color_yellow: "rgb_to_hex 255 255 0 = ''#ffff00''"
  by (simp add: rgb_to_hex_def format_02x_0 format_02x_255)

lemma color_red: "rgb_to_hex 255 0 0 = ''#ff0000''"
  by (simp add: rgb_to_hex_def format_02x_0 format_02x_255)

lemma gradient_normalized:
  assumes "m \<noteq> 0" and "c / m = n"
  shows "get_smooth_gradient_color (Some c) m =
           (if min n 1 < 0.33 then Inr (rgb_to_hex 0 (py_int (255 * (min n 1 / 0.33))) 255)
            else if min n 1 < 0.66 then
              Inr (rgb_to_hex (py_int (255 * ((min n 1 - 0.33) / 0.33))) 255
                     (py_int (255 * (1 - (min n 1 - 0.33) / 0.33))))
            else Inr (rgb_to_hex 255 (py_int (255 * (1 - (min n 1 - 0.66) / 0.34))) 0))"
proof -
  have one: "(1.0::real) = 1" by simp
  show ?thesis
    using assms(1)
    by (simp only: get_smooth_gradient_color_def option.case assms(2) Let_def if_False one)
qed

lemma gradient_first_segment:
  assumes "m \<noteq> 0" and "c / m = n" and "n < 0.33"
  shows "get_smooth_gradient_color (Some c) m = Inr (rgb_to_hex 0 (py_int (255 * (n / 0.33))) 255)"
proof -
  have "min n 1 = n" using assms(3) by (simp add: min_def)
  then show ?thesis
    using assms(3) by (simp only: gradient_normalized [OF assms(1,2)] if_True)
qed

lemma gradient_second_segment:
  assumes "m \<noteq> 0" and "c / m = n" and "0.33 \<le> n" and "n < 0.66"
  shows "get_smooth_gradient_color (Some c) m =
           Inr (rgb_to_hex (py_int (255 * ((n - 0.33) / 0.33))) 255
                  (py_int (255 * (1 - (n - 0.33) / 0.33))))"
proof -
  have "min n 1 = n" using assms(4) by (simp add: min_def)
  moreover have "\<not> n < 0.33" using assms(3) by (simp only: not_less)
  ultimately show ?thesis
    using assms(4) by (simp only: gradient_normalized [OF assms(1,2)] if_True if_False)
qed

lemma gradient_third_segment:
  assumes "m \<noteq> 0" and "c / m = n" and "0.66 \<le> n"
  shows "get_smooth_gradient_color (Some c) m =
           Inr (rgb_to_hex 255 (py_int (255 * (1 - (min n 1 - 0.66) / 0.34))) 0)"
proof -
  have "\<not> min n 1 < 0.33" and "\<not> min n 1 < 0.66" using assms(3) by (simp_all add: min_def)
  then show ?thesis
    by (simp only: gradient_normalized [OF assms(1,2)] if_False)
qed

subsection \<open>C3: the breakpoint colours\<close>

text \<open>
  C3 states that a normalized value of exactly 1/3 gives pure cyan and exactly 2/3 gives
  pure yellow, the three segments being equal thirds. The code switches segments at
  0.33 and 0.66. With \<open>max_congestion = 0.6\<close>, the value 0.2 is normalized to 1/3, lies
  in the second segment already and is coloured \<open>#02fffc\<close>; the value 0.4 is normalized
  to 2/3, lies in the third segment and is not coloured \<open>#ffff00\<close>.
\<close>

theorem gradient_third_is_not_cyan:
  "(0.2::real) / 0.6 = 1 / 3
   \<and> get_smooth_gradient_color (Some 0.2) 0.6 = Inr ''#02fffc''
   \<and> get_smooth_gradient_color (Some 0.2) 0.6 \<noteq> Inr ''#00ffff''
   \<and> (0.4::real) / 0.6 = 2 / 3
   \<and> get_smooth_gradient_color (Some 0.4) 0.6 \<noteq> Inr ''#ffff00''"
  by code_simp

text \<open>
  C3, amended: for a non-zero \<open>max_congestion\<close>, an unknown value is coloured
  \<open>#666666\<close>; a normalized value of 0 gives \<open>#0000ff\<close>, of exactly 0.33 gives \<open>#00ffff\<close>,
  of exactly 0.66 gives \<open>#ffff00\<close>, and of 1 or more gives \<open>#ff0000\<close>. The segments are
  \<open>[0, 0.33)\<close> (green rises, over a width of 0.33), \<open>[0.33, 0.66)\<close> (red rises and blue
  falls, over a width of 0.33) and \<open>[0.66, 1]\<close> (green falls, over a width of 0.34).
  Here \<open>n\<close> is the quotient \<open>congestion / max_congestion\<close>.
\<close>

theorem gradient_breakpoints:
  assumes "m \<noteq> 0" and "c / m = n"
  shows "get_smooth_gradient_color None m = Inr ''#666666''
       \<and> get_smooth_gradient_color (Some 0) m = Inr ''#0000ff''
       \<and> (n = 0.33 \<longrightarrow> get_smooth_gradient_color (Some c) m = Inr ''#00ffff'')
       \<and> (n = 0.66 \<longrightarrow> get_smooth_gradient_color (Some c) m = Inr ''#ffff00'')
       \<and> (1 \<le> n \<longrightarrow> get_smooth_gradient_color (Some c) m = Inr ''#ff0000'')
       \<and> (n < 0.33 \<longrightarrow> get_smooth_gradient_color (Some c) m =
             Inr (rgb_to_hex 0 (py_int (255 * (n / 0.33))) 255))
       \<and> (0.33 \<le> n \<and> n < 0.66 \<longrightarrow> get_smooth_gradient_color (Some c) m =
             Inr (rgb_to_hex (py_int (255 * ((n - 0.33) / 0.33))) 255
                    (py_int (255 * (1 - (n - 0.33) / 0.33)))))
       \<and> (0.66 \<le> n \<longrightarrow> get_smooth_gradient_color (Some c) m =
             Inr (rgb_to_hex 255 (py_int (255 * (1 - (min n 1 - 0.66) / 0.34))) 0))"
proof -
  have unknown: "get_smooth_gradient_color None m = Inr ''#666666''"
    by (simp add: get_smooth_gradient_color_def)
  have "0 / m = (0::real)" by simp
  then have zero: "get_smooth_gradient_color (Some 0) m = Inr ''#0000ff''"
    using gradient_first_segment [of m 0 0] assms(1) by (simp add: py_int_0 color_blue)
  have third: "n = 0.33 \<longrightarrow> get_smooth_gradient_color (Some c) m = Inr ''#00ffff''"
  proof
    assume that: "n = 0.33"
    show "get_smooth_gradient_color (Some c) m = Inr ''#00ffff''"
    using gradient_second_segment [OF assms, unfolded that] by (simp add: py_int_0 py_int_255 color_cyan)
  qed
  have two_thirds: "n = 0.66 \<longrightarrow> get_smooth_gradient_color (Some c) m = Inr ''#ffff00''"
  proof
    assume that: "n = 0.66"
    show "get_smooth_gradient_color (Some c) m = Inr ''#ffff00''"
    using gradient_third_segment [OF assms, unfolded that] by (simp add: py_int_255 color_yellow)
  qed
  have one: "1 \<le> n \<longrightarrow> get_smooth_gradient_color (Some c) m = Inr ''#ff0000''"
  proof
    assume that: "1 \<le> n"
    have "min n 1 = 1" using that by simp
    moreover have "0.66 \<le> n" using that by simp
    ultimately show "get_smooth_gradient_color (Some c) m = Inr ''#ff0000''"
      using gradient_third_segment [OF assms] by (simp add: py_int_0 color_red)
  qed
  have seg1: "n < 0.33 \<longrightarrow> get_smooth_gradient_color (Some c) m =
             Inr (rgb_to_hex 0 (py_int (255 * (n / 0.33))) 255)"
    using gradient_first_segment [OF assms] by (rule impI)
  have seg2: "0.33 \<le> n \<and> n < 0.66 \<longrightarrow> get_smooth_gradient_color (Some c) m =
             Inr (rgb_to_hex (py_int (255 * ((n - 0.33) / 0.33))) 255
                    (py_int (255 * (1 - (n - 0.33) / 0.33))))"
    using gradient_second_segment [OF assms] by (intro impI) (elim conjE)
  have seg3: "0.66 \<le> n \<longrightarrow> get_smooth_gradient_color (Some c) m =
             Inr (rgb_to_hex 255 (py_int (255 * (1 - (min n 1 - 0.66) / 0.34))) 0)"
    using gradient_third_segment [OF assms] by (rule impI)
  show ?thesis
    by (intro conjI unknown zero third two_thirds one seg1 seg2 seg3)
qed

text \<open>
  The amended C3 at concrete values: the breakpoints 0.33 and 0.66 with
  \<open>max_congestion = 1\<close>, the ends of the range with the default 0.6.
\<close>

theorem gradient_breakpoints_witness:
  "get_smooth_gradient_color None 0.6 = Inr ''#666666''
   \<and> get_smooth_gradient_color (Some 0) 0.6 = Inr ''#0000ff''
   \<and> get_smooth_gradient_color (Some 0.33) 1 = Inr ''#00ffff''
   \<and> get_smooth_gradient_color (Some 0.66) 1 = Inr ''#ffff00''
   \<and> get_smooth_gradient_color (Some 0.6) 0.6 = Inr ''#ff0000''
   \<and> get_smooth_gradient_color (Some 0.9) 0.6 = Inr ''#ff0000''"
proof -
  have a: "(0.6::real) \<noteq> 0" and b: "(1::real) \<noteq> 0" by simp_all
  have c1: "(0.33::real) / 1 = 0.33" and c2: "(0.66::real) / 1 = 0.66"
    and c3: "(0.6::real) / 0.6 = 1" and c4: "(0.9::real) / 0.6 = 1.5" by simp_all
  have d: "(1::real) \<le> 1" "(1::real) \<le> 1.5" by simp_all
  note w1 = gradient_breakpoints [OF a c3] and w2 = gradient_breakpoints [OF a c4]
    and w3 = gradient_breakpoints [OF b c1] and w4 = gradient_breakpoints [OF b c2]
  have "get_smooth_gradient_color None 0.6 = Inr ''#666666''" using w1 by (elim conjE)
  moreover have "get_smooth_gradient_color (Some 0) 0.6 = Inr ''#0000ff''" using w1 by (elim conjE)
  moreover have "get_smooth_gradient_color (Some 0.33) 1 = Inr ''#00ffff''"
    using w3 by (elim conjE) (erule mp, rule refl)
  moreover have "get_smooth_gradient_color (Some 0.66) 1 = Inr ''#ffff00''"
    using w4 by (elim conjE) (erule mp [where P = "0.66 = 0.66"], rule refl)
  moreover have "get_smooth_gradient_color (Some 0.6) 0.6 = Inr ''#ff0000''"
    using w1 d(1) by (elim conjE) (erule mp [where P = "1 \<le> 1"])
  moreover have "get_smooth_gradient_color (Some 0.9) 0.6 = Inr ''#ff0000''"
    using w2 d(2) by (elim conjE) (erule mp [where P = "1 \<le> 1.5"])
  ultimately show ?thesis by (intro conjI)
qed

section \<open>Properties of the grid and of the scan\<close>

subsection \<open>Auxiliary facts about the grid\<close>

lemma np_arange_empty:
  assumes "step \<noteq> 0" and "(stop - start) / step \<le> 0"
  shows "np_arange start stop step = Inr []"
proof -
  have "\<lceil>(stop - start) / step\<rceil> \<le> 0" using assms(2) by (simp add: ceiling_le_iff)
  then show ?thesis using assms(1) by (simp add: np_arange_def)
qed

lemma np_arange_total:
  "step \<noteq> 0 \<Longrightarrow> \<exists>vs. np_arange start stop step = Inr vs"
  by (simp add: np_arange_def)

lemma concat_empty_rows: "concat (map (\<lambda>x. []) xs) = []"
  by (induction xs) simp_all

lemma generate_grid_empty_lats:
  assumes "spacing \<noteq> 0" and "np_arange (lat_min box) (lat_max box) spacing = Inr []"
  shows "generate_grid box spacing = Inr []"
proof -
  obtain lons where "np_arange (lon_min box) (lon_max box) spacing = Inr lons"
    using np_arange_total [OF assms(1)] by blast
  then show ?thesis using assms(2) by (simp add: generate_grid_def)
qed

lemma generate_grid_empty_lons:
  assumes "spacing \<noteq> 0" and "np_arange (lon_min box) (lon_max box) spacing = Inr []"
  shows "generate_grid box spacing = Inr []"
proof -
  obtain lats where "np_arange (lat_min box) (lat_max box) spacing = Inr lats"
    using np_arange_total [OF assms(1)] by blast
  then show ?thesis using assms(2) by (simp add: generate_grid_def concat_empty_rows)
qed

subsection \<open>C6: non-positive spacing and empty boxes\<close>

text \<open>
  C6, amended: grid generation validates nothing. A spacing of 0 raises inside
  \<open>np.arange\<close>, before any request is sent. A negative spacing over a box whose latitude
  or longitude range is not inverted, and a positive spacing over a box that is empty
  in latitude or in longitude, are accepted and give the empty sequence without any
  error; the scan of an empty grid sends no request.
\<close>

theorem grid_is_not_validated:
  "(spacing = 0 \<longrightarrow> generate_grid box spacing = Inl ZeroDivisionError)
   \<and> (spacing < 0 \<and> (lat_min box \<le> lat_max box \<or> lon_min box \<le> lon_max box)
        \<longrightarrow> generate_grid box spacing = Inr [])
   \<and> (0 < spacing \<and> (lat_max box \<le> lat_min box \<or> lon_max box \<le> lon_min box)
        \<longrightarrow> generate_grid box spacing = Inr [])
   \<and> scan_traffic_grid service [] = (Inr [], 0)"
proof (intro conjI impI)
  assume "spacing = 0"
  then show "generate_grid box spacing = Inl ZeroDivisionError"
    by (simp add: generate_grid_def np_arange_def)
next
  assume a: "spacing < 0 \<and> (lat_min box \<le> lat_max box \<or> lon_min box \<le> lon_max box)"
  then have nz: "spacing \<noteq> 0" by simp
  from a consider "lat_min box \<le> lat_max box" | "lon_min box \<le> lon_max box" by blast
  then show "generate_grid box spacing = Inr []"
  proof cases
    case 1
    then have "(lat_max box - lat_min box) / spacing \<le> 0"
      using a by (simp add: divide_nonneg_neg)
    then show ?thesis using generate_grid_empty_lats [OF nz] np_arange_empty [OF nz] by blast
  next
    case 2
    then have "(lon_max box - lon_min box) / spacing \<le> 0"
      using a by (simp add: divide_nonneg_neg)
    then show ?thesis using generate_grid_empty_lons [OF nz] np_arange_empty [OF nz] by blast
  qed
next
  assume a: "0 < spacing \<and> (lat_max box \<le> lat_min box \<or> lon_max box \<le> lon_min box)"
  then have nz: "spacing \<noteq> 0" by simp
  from a consider "lat_max box \<le> lat_min box" | "lon_max box \<le> lon_min box" by blast
  then show "generate_grid box spacing = Inr []"
  proof cases
    case 1
    then have "(lat_max box - lat_min box) / spacing \<le> 0"
      using a by (simp add: divide_nonpos_pos)
    then show ?thesis using generate_grid_empty_lats [OF nz] np_arange_empty [OF nz] by blast
  next
    case 2
    then have "(lon_max box - lon_min box) / spacing \<le> 0"
      using a by (simp add: divide_nonpos_pos)
    then show ?thesis using generate_grid_empty_lons [OF nz] np_arange_empty [OF nz] by blast
  qed
next
  show "scan_traffic_grid service [] = (Inr [], 0)"
    by (simp add: scan_traffic_grid_def)
qed

text \<open>The amended C6 at concrete boxes and spacings.\<close>

theorem grid_is_not_validated_witness:
  "generate_grid \<lparr>lat_min = 0, lat_max = 1, lon_min = 0, lon_max = 1\<rparr> 0 = Inl ZeroDivisionError
   \<and> generate_grid \<lparr>lat_min = 0, lat_max = 1, lon_min = 0, lon_max = 1\<rparr> (- 0.5) = Inr []
   \<and> generate_grid \<lparr>lat_min = 1, lat_max = 1, lon_min = 0, lon_max = 1\<rparr> 0.5 = Inr []"
proof -
  let ?b = "\<lparr>lat_min = 0, lat_max = 1, lon_min = 0, lon_max = 1\<rparr>"
  let ?e = "\<lparr>lat_min = 1, lat_max = 1, lon_min = 0, lon_max = 1\<rparr>"
  have "generate_grid ?b 0 = Inl ZeroDivisionError"
    using grid_is_not_validated [of 0 ?b] by simp
  moreover have "generate_grid ?b (- 0.5) = Inr []"
    using grid_is_not_validated [of "- 0.5" ?b] by simp
  moreover have "generate_grid ?e 0.5 = Inr []"
    using grid_is_not_validated [of "0.5" ?e] by simp
  ultimately show ?thesis by (intro conjI)
qed

text \<open>
  C6 states that a spacing \<open>\<le> 0\<close> and an empty bounding box are rejected as fatal
  validation errors and that no degenerate sequence is returned silently. On the unit
  box a spacing of \<open>-0.5\<close> returns the empty grid as an ordinary result, and so does
  a box with \<open>lat_min = lat_max\<close> at spacing 0.5; for comparison, spacing 0.5 on the unit
  box gives the four expected points.
\<close>

theorem negative_spacing_silently_empty:
  "generate_grid \<lparr>lat_min = 0, lat_max = 1, lon_min = 0, lon_max = 1\<rparr> (- 0.5) = Inr []
   \<and> generate_grid \<lparr>lat_min = 1, lat_max = 1, lon_min = 0, lon_max = 1\<rparr> 0.5 = Inr []
   \<and> generate_grid \<lparr>lat_min = 0, lat_max = 1, lon_min = 0, lon_max = 1\<rparr> 0.5
        = Inr [(0, 0), (0, 0.5), (0.5, 0), (0.5, 0.5)]"
  by code_simp

subsection \<open>Auxiliary facts about one lookup\<close>

lemma read_speeds_cases:
  "read_speeds la lo cur free = Inr (invalid_sample la lo)
   \<or> read_speeds la lo cur free = Inl TypeError
   \<or> (\<exists>cs ffs. cur = Number cs \<and> free = Number ffs \<and> 0 < ffs
        \<and> read_speeds la lo cur free =
            Inr \<lparr>lat = la, lon = lo, current_speed = Some cs, free_flow_speed = Some ffs,
                 congestion_factor = Some (max 0 (min 1 (1 - cs / ffs)))\<rparr>)"
  by (simp add: read_speeds_def split: json_speed.splits)

lemma read_response_cases:
  "read_response la lo st data = Inr (invalid_sample la lo)
   \<or> read_response la lo st data = Inl TypeError
   \<or> read_response la lo st data = Inl AttributeError
   \<or> (\<exists>cs ffs. \<not> (400 \<le> st \<and> st < 600)
        \<and> data = JsonObject (FlowObject (Number cs) (Number ffs)) \<and> 0 < ffs
        \<and> read_response la lo st data =
            Inr \<lparr>lat = la, lon = lo, current_speed = Some cs, free_flow_speed = Some ffs,
                 congestion_factor = Some (max 0 (min 1 (1 - cs / ffs)))\<rparr>)"
proof (cases "400 \<le> st \<and> st < 600")
  case True
  then show ?thesis by (simp add: read_response_def)
next
  case False
  show ?thesis
  proof (cases data)
    case NotJson
    then show ?thesis using False by (auto simp add: read_response_def)
  next
    case NotObject
    then show ?thesis using False by (auto simp add: read_response_def)
  next
    case (JsonObject flow_data)
    show ?thesis
    proof (cases flow_data)
      case NoFlowKey
      then show ?thesis using False JsonObject
        by (auto simp add: read_response_def read_speeds_def)
    next
      case FlowNotObject
      then show ?thesis using False JsonObject by (auto simp add: read_response_def)
    next
      case (FlowObject cur free)
      then have "read_response la lo st data = read_speeds la lo cur free"
        using False JsonObject by (auto simp add: read_response_def)
      then show ?thesis
        using read_speeds_cases [of la lo cur free] False JsonObject FlowObject by auto
    qed
  qed
qed

lemma read_response_valid:
  assumes "\<not> (400 \<le> st \<and> st < 600)" and "0 < ffs"
  shows "read_response la lo st (JsonObject (FlowObject (Number cs) (Number ffs))) =
           Inr \<lparr>lat = la, lon = lo, current_speed = Some cs, free_flow_speed = Some ffs,
                congestion_factor = Some (max 0 (min 1 (1 - cs / ffs)))\<rparr>"
  using assms by (auto simp add: read_response_def read_speeds_def)

text \<open>
  The outcome that is read: the first one, or the outcome of the retry after a first
  status 429; a request that raises is the third case.
\<close>

lemma get_with_retry_cases:
  "fst (get_with_retry service n p) = RequestException
   \<or> (\<exists>st data. fst (get_with_retry service n p) = Response st data
         \<and> ((service n p = Response st data \<and> st \<noteq> 429)
              \<or> ((\<exists>b. service n p = Response 429 b) \<and> service (n + 1) p = Response st data)))"
proof (cases "service n p")
  case RequestException
  then show ?thesis by (simp add: get_with_retry_def)
next
  case (Response st data)
  show ?thesis
  proof (cases "st = 429")
    case False
    then show ?thesis using Response by (simp add: get_with_retry_def)
  next
    case True
    then have "fst (get_with_retry service n p) = service (n + 1) p"
      using Response by (simp add: get_with_retry_def)
    then show ?thesis using Response True by (cases "service (n + 1) p") auto
  qed
qed

lemma get_with_retry_read:
  assumes "(service n p = Response st data \<and> st \<noteq> 429)
           \<or> ((\<exists>b. service n p = Response 429 b) \<and> service (n + 1) p = Response st data)"
  shows "fst (get_with_retry service n p) = Response st data"
  using assms by (auto simp add: get_with_retry_def)

lemma fetch_congestion_fst:
  "fst (fetch_congestion service n la lo) =
     (case fst (get_with_retry service n (la, lo)) of
        RequestException \<Rightarrow> Inr (invalid_sample la lo)
      | Response st data \<Rightarrow> read_response la lo st data)"
  by (cases "get_with_retry service n (la, lo)")
     (simp add: fetch_congestion_def split: http_outcome.splits)

lemma fetch_congestion_snd:
  "snd (fetch_congestion service n la lo) = snd (get_with_retry service n (la, lo))"
  by (cases "get_with_retry service n (la, lo)")
     (simp add: fetch_congestion_def split: http_outcome.splits)

lemma fetch_congestion_requests:
  "n + 1 \<le> snd (fetch_congestion service n la lo) \<and> snd (fetch_congestion service n la lo) \<le> n + 2"
  unfolding fetch_congestion_snd by (simp add: get_with_retry_def split: http_outcome.splits)

lemma fetch_congestion_read:
  assumes "(service n (la, lo) = Response st data \<and> st \<noteq> 429)
           \<or> ((\<exists>b. service n (la, lo) = Response 429 b) \<and> service (n + 1) (la, lo) = Response st data)"
  shows "fst (fetch_congestion service n la lo) = read_response la lo st data"
  unfolding fetch_congestion_fst get_with_retry_read [of service n "(la, lo)" st data, OF assms]
  by simp

lemma fetch_congestion_cases:
  "fst (fetch_congestion service n la lo) = Inr (invalid_sample la lo)
   \<or> fst (fetch_congestion service n la lo) = Inl TypeError
   \<or> fst (fetch_congestion service n la lo) = Inl AttributeError
   \<or> (\<exists>st cs ffs.
        ((service n (la, lo) = Response st (JsonObject (FlowObject (Number cs) (Number ffs)))
            \<and> st \<noteq> 429)
         \<or> ((\<exists>b. service n (la, lo) = Response 429 b)
             \<and> service (n + 1) (la, lo) = Response st (JsonObject (FlowObject (Number cs) (Number ffs)))))
        \<and> \<not> (400 \<le> st \<and> st < 600) \<and> 0 < ffs
        \<and> fst (fetch_congestion service n la lo) =
            Inr \<lparr>lat = la, lon = lo, current_speed = Some cs, free_flow_speed = Some ffs,
                 congestion_factor = Some (max 0 (min 1 (1 - cs / ffs)))\<rparr>)"
proof -
  from get_with_retry_cases [of service n "(la, lo)"]
  consider (raised) "fst (get_with_retry service n (la, lo)) = RequestException"
    | (read) st data where "fst (get_with_retry service n (la, lo)) = Response st data"
        and "(service n (la, lo) = Response st data \<and> st \<noteq> 429)
              \<or> ((\<exists>b. service n (la, lo) = Response 429 b) \<and> service (n + 1) (la, lo) = Response st data)"
    by blast
  then show ?thesis
  proof cases
    case raised
    then show ?thesis by (simp add: fetch_congestion_fst)
  next
    case read
    have out: "fst (fetch_congestion service n la lo) = read_response la lo st data"
      using read(1) by (simp add: fetch_congestion_fst)
    from read_response_cases [of la lo st data] show ?thesis
    proof (elim disjE exE conjE)
      fix cs ffs
      assume ne: "\<not> (400 \<le> st \<and> st < 600)"
        and d: "data = JsonObject (FlowObject (Number cs) (Number ffs))"
        and pos: "0 < ffs"
        and rr: "read_response la lo st data =
            Inr \<lparr>lat = la, lon = lo, current_speed = Some cs, free_flow_speed = Some ffs,
                 congestion_factor = Some (max 0 (min 1 (1 - cs / ffs)))\<rparr>"
      have P: "(service n (la, lo) = Response st (JsonObject (FlowObject (Number cs) (Number ffs)))
            \<and> st \<noteq> 429)
         \<or> ((\<exists>b. service n (la, lo) = Response 429 b)
             \<and> service (n + 1) (la, lo) = Response st (JsonObject (FlowObject (Number cs) (Number ffs))))"
        using read(2) unfolding d .
      have R: "fst (fetch_congestion service n la lo) =
            Inr \<lparr>lat = la, lon = lo, current_speed = Some cs, free_flow_speed = Some ffs,
                 congestion_factor = Some (max 0 (min 1 (1 - cs / ffs)))\<rparr>"
        using out rr by simp
      show ?thesis
        by (rule disjI2, rule disjI2, rule disjI2,
            intro exI [of _ st] exI [of _ cs] exI [of _ ffs] conjI P ne pos R)
    qed (simp_all add: out)
  qed
qed

subsection \<open>C7: the flow sample invariant\<close>

text \<open>
  C7: a sample that \<open>fetch_congestion\<close> returns has a congestion factor exactly when
  the response that is read (the first one, or after a first status 429 the response
  to the one retry) has no error status and carries both speeds as numbers with a
  positive free-flow speed. In that case the sample stores the two retrieved speeds and
  the factor \<open>1 - current_speed / free_flow_speed\<close> clamped to \<open>[0, 1]\<close>, which lies
  between 0 and 1. A response whose speed is missing or whose free-flow speed is not
  positive, a response with an error status and a request that raises give the
  sample without speeds and without a factor: absence is the only form of an invalid
  sample.
\<close>

theorem flow_sample_invariant:
  "(\<forall>st cs ffs.
        ((service n (la, lo) = Response st (JsonObject (FlowObject (Number cs) (Number ffs))) \<and> st \<noteq> 429)
          \<or> ((\<exists>b. service n (la, lo) = Response 429 b)
              \<and> service (n + 1) (la, lo) = Response st (JsonObject (FlowObject (Number cs) (Number ffs)))))
        \<and> \<not> (400 \<le> st \<and> st < 600) \<and> 0 < ffs
        \<longrightarrow> fst (fetch_congestion service n la lo) =
              Inr \<lparr>lat = la, lon = lo, current_speed = Some cs, free_flow_speed = Some ffs,
                 congestion_factor = Some (max 0 (min 1 (1 - cs / ffs)))\<rparr>)
   \<and> (\<forall>s. fst (fetch_congestion service n la lo) = Inr s \<longrightarrow>
        lat s = la \<and> lon s = lo
        \<and> ((congestion_factor s \<noteq> None) =
             (\<exists>st cs ffs.
                ((service n (la, lo) = Response st (JsonObject (FlowObject (Number cs) (Number ffs))) \<and> st \<noteq> 429)
          \<or> ((\<exists>b. service n (la, lo) = Response 429 b)
              \<and> service (n + 1) (la, lo) = Response st (JsonObject (FlowObject (Number cs) (Number ffs)))))
                \<and> \<not> (400 \<le> st \<and> st < 600) \<and> 0 < ffs))
        \<and> (congestion_factor s = None \<longrightarrow> current_speed s = None \<and> free_flow_speed s = None)
        \<and> (\<forall>c. congestion_factor s = Some c \<longrightarrow>
               0 \<le> c \<and> c \<le> 1
               \<and> (\<exists>cs ffs. current_speed s = Some cs \<and> free_flow_speed s = Some ffs
                      \<and> 0 < ffs \<and> c = max 0 (min 1 (1 - cs / ffs)))))
   \<and> (\<forall>st cur free.
        ((service n (la, lo) = Response st (JsonObject (FlowObject cur free)) \<and> st \<noteq> 429)
          \<or> ((\<exists>b. service n (la, lo) = Response 429 b)
              \<and> service (n + 1) (la, lo) = Response st (JsonObject (FlowObject cur free))))
        \<and> \<not> (400 \<le> st \<and> st < 600)
        \<and> (cur = Missing \<or> free = Missing \<or> (\<exists>ffs. free = Number ffs \<and> ffs \<le> 0))
        \<longrightarrow> fst (fetch_congestion service n la lo) =
              Inr \<lparr>lat = la, lon = lo, current_speed = None, free_flow_speed = None,
                 congestion_factor = None\<rparr>)
   \<and> (service n (la, lo) = RequestException
        \<or> ((\<exists>b. service n (la, lo) = Response 429 b)
            \<and> service (n + 1) (la, lo) = RequestException)
        \<or> (\<exists>st data.
              ((service n (la, lo) = Response st (data) \<and> st \<noteq> 429)
          \<or> ((\<exists>b. service n (la, lo) = Response 429 b)
              \<and> service (n + 1) (la, lo) = Response st (data)))
              \<and> 400 \<le> st \<and> st < 600)
        \<longrightarrow> fst (fetch_congestion service n la lo) =
              Inr \<lparr>lat = la, lon = lo, current_speed = None, free_flow_speed = None,
                 congestion_factor = None\<rparr>)"
proof -
  let ?out = "fst (fetch_congestion service n la lo)"
  have valid: "\<forall>st cs ffs.
        ((service n (la, lo) = Response st (JsonObject (FlowObject (Number cs) (Number ffs))) \<and> st \<noteq> 429)
          \<or> ((\<exists>b. service n (la, lo) = Response 429 b)
              \<and> service (n + 1) (la, lo) = Response st (JsonObject (FlowObject (Number cs) (Number ffs)))))
        \<and> \<not> (400 \<le> st \<and> st < 600) \<and> 0 < ffs
        \<longrightarrow> fst (fetch_congestion service n la lo) =
              Inr \<lparr>lat = la, lon = lo, current_speed = Some cs, free_flow_speed = Some ffs,
                 congestion_factor = Some (max 0 (min 1 (1 - cs / ffs)))\<rparr>"
  proof (intro allI impI, elim conjE)
    fix st cs ffs
    assume read: "((service n (la, lo) = Response st (JsonObject (FlowObject (Number cs) (Number ffs))) \<and> st \<noteq> 429)
          \<or> ((\<exists>b. service n (la, lo) = Response 429 b)
              \<and> service (n + 1) (la, lo) = Response st (JsonObject (FlowObject (Number cs) (Number ffs)))))"
      and ne: "\<not> (400 \<le> st \<and> st < 600)" and pos: "0 < ffs"
    show "?out = Inr \<lparr>lat = la, lon = lo, current_speed = Some cs, free_flow_speed = Some ffs,
                 congestion_factor = Some (max 0 (min 1 (1 - cs / ffs)))\<rparr>"
      unfolding fetch_congestion_read [of service n la lo st "JsonObject (FlowObject (Number cs) (Number ffs))", OF read]
      by (rule read_response_valid [OF ne pos])
  qed
  have shape: "s = invalid_sample la lo
      \<or> (\<exists>st cs ffs.
            ((service n (la, lo) = Response st (JsonObject (FlowObject (Number cs) (Number ffs))) \<and> st \<noteq> 429)
          \<or> ((\<exists>b. service n (la, lo) = Response 429 b)
              \<and> service (n + 1) (la, lo) = Response st (JsonObject (FlowObject (Number cs) (Number ffs)))))
            \<and> \<not> (400 \<le> st \<and> st < 600) \<and> 0 < ffs
            \<and> s = \<lparr>lat = la, lon = lo, current_speed = Some cs, free_flow_speed = Some ffs,
                 congestion_factor = Some (max 0 (min 1 (1 - cs / ffs)))\<rparr>)" if "?out = Inr s" for s
    using fetch_congestion_cases [of service n la lo] that by auto
  have returned: "\<forall>s. fst (fetch_congestion service n la lo) = Inr s \<longrightarrow>
        lat s = la \<and> lon s = lo
        \<and> ((congestion_factor s \<noteq> None) =
             (\<exists>st cs ffs.
                ((service n (la, lo) = Response st (JsonObject (FlowObject (Number cs) (Number ffs))) \<and> st \<noteq> 429)
          \<or> ((\<exists>b. service n (la, lo) = Response 429 b)
              \<and> service (n + 1) (la, lo) = Response st (JsonObject (FlowObject (Number cs) (Number ffs)))))
                \<and> \<not> (400 \<le> st \<and> st < 600) \<and> 0 < ffs))
        \<and> (congestion_factor s = None \<longrightarrow> current_speed s = None \<and> free_flow_speed s = None)
        \<and> (\<forall>c. congestion_factor s = Some c \<longrightarrow>
               0 \<le> c \<and> c \<le> 1
               \<and> (\<exists>cs ffs. current_speed s = Some cs \<and> free_flow_speed s = Some ffs
                      \<and> 0 < ffs \<and> c = max 0 (min 1 (1 - cs / ffs))))"
  proof (intro allI impI)
    fix s assume out: "?out = Inr s"
    from shape [OF out] consider
        (inv) "s = invalid_sample la lo"
      | (full) st cs ffs where
          "((service n (la, lo) = Response st (JsonObject (FlowObject (Number cs) (Number ffs))) \<and> st \<noteq> 429)
          \<or> ((\<exists>b. service n (la, lo) = Response 429 b)
              \<and> service (n + 1) (la, lo) = Response st (JsonObject (FlowObject (Number cs) (Number ffs)))))"
          "\<not> (400 \<le> st \<and> st < 600)" "0 < ffs"
          "s = \<lparr>lat = la, lon = lo, current_speed = Some cs, free_flow_speed = Some ffs,
                 congestion_factor = Some (max 0 (min 1 (1 - cs / ffs)))\<rparr>"
      by blast
    then show "lat s = la \<and> lon s = lo
        \<and> ((congestion_factor s \<noteq> None) =
             (\<exists>st cs ffs.
                ((service n (la, lo) = Response st (JsonObject (FlowObject (Number cs) (Number ffs))) \<and> st \<noteq> 429)
          \<or> ((\<exists>b. service n (la, lo) = Response 429 b)
              \<and> service (n + 1) (la, lo) = Response st (JsonObject (FlowObject (Number cs) (Number ffs)))))
                \<and> \<not> (400 \<le> st \<and> st < 600) \<and> 0 < ffs))
        \<and> (congestion_factor s = None \<longrightarrow> current_speed s = None \<and> free_flow_speed s = None)
        \<and> (\<forall>c. congestion_factor s = Some c \<longrightarrow>
               0 \<le> c \<and> c \<le> 1
               \<and> (\<exists>cs ffs. current_speed s = Some cs \<and> free_flow_speed s = Some ffs
                      \<and> 0 < ffs \<and> c = max 0 (min 1 (1 - cs / ffs))))"
    proof cases
      case inv
      have none: "\<not> (\<exists>st cs ffs.
                ((service n (la, lo) = Response st (JsonObject (FlowObject (Number cs) (Number ffs))) \<and> st \<noteq> 429)
          \<or> ((\<exists>b. service n (la, lo) = Response 429 b)
              \<and> service (n + 1) (la, lo) = Response st (JsonObject (FlowObject (Number cs) (Number ffs)))))
                \<and> \<not> (400 \<le> st \<and> st < 600) \<and> 0 < ffs)"
      proof
        assume "\<exists>st cs ffs.
                ((service n (la, lo) = Response st (JsonObject (FlowObject (Number cs) (Number ffs))) \<and> st \<noteq> 429)
          \<or> ((\<exists>b. service n (la, lo) = Response 429 b)
              \<and> service (n + 1) (la, lo) = Response st (JsonObject (FlowObject (Number cs) (Number ffs)))))
                \<and> \<not> (400 \<le> st \<and> st < 600) \<and> 0 < ffs"
        then obtain st cs ffs where "?out = Inr \<lparr>lat = la, lon = lo, current_speed = Some cs, free_flow_speed = Some ffs,
                 congestion_factor = Some (max 0 (min 1 (1 - cs / ffs)))\<rparr>"
          using valid by blast
        then show False using out inv by (simp add: invalid_sample_def)
      qed
      show ?thesis using none unfolding inv by (simp add: invalid_sample_def)
    next
      case full
      note read = full(1) and ne = full(2) and pos = full(3) and full = full(4)
      have ex: "\<exists>st cs ffs.
                ((service n (la, lo) = Response st (JsonObject (FlowObject (Number cs) (Number ffs))) \<and> st \<noteq> 429)
          \<or> ((\<exists>b. service n (la, lo) = Response 429 b)
              \<and> service (n + 1) (la, lo) = Response st (JsonObject (FlowObject (Number cs) (Number ffs)))))
                \<and> \<not> (400 \<le> st \<and> st < 600) \<and> 0 < ffs"
        using read ne pos by blast
      show ?thesis using ex pos unfolding full by simp
    qed
  qed
  have invalid: "\<forall>st cur free.
        ((service n (la, lo) = Response st (JsonObject (FlowObject cur free)) \<and> st \<noteq> 429)
          \<or> ((\<exists>b. service n (la, lo) = Response 429 b)
              \<and> service (n + 1) (la, lo) = Response st (JsonObject (FlowObject cur free))))
        \<and> \<not> (400 \<le> st \<and> st < 600)
        \<and> (cur = Missing \<or> free = Missing \<or> (\<exists>ffs. free = Number ffs \<and> ffs \<le> 0))
        \<longrightarrow> fst (fetch_congestion service n la lo) =
              Inr \<lparr>lat = la, lon = lo, current_speed = None, free_flow_speed = None,
                 congestion_factor = None\<rparr>"
  proof (intro allI impI, elim conjE)
    fix st cur free
    assume read: "((service n (la, lo) = Response st (JsonObject (FlowObject cur free)) \<and> st \<noteq> 429)
          \<or> ((\<exists>b. service n (la, lo) = Response 429 b)
              \<and> service (n + 1) (la, lo) = Response st (JsonObject (FlowObject cur free))))"
      and ne: "\<not> (400 \<le> st \<and> st < 600)"
      and bad: "cur = Missing \<or> free = Missing \<or> (\<exists>ffs. free = Number ffs \<and> ffs \<le> 0)"
    have "read_response la lo st (JsonObject (FlowObject cur free)) = Inr (invalid_sample la lo)"
      using ne bad by (auto simp add: read_response_def read_speeds_def split: json_speed.splits)
    then show "?out = Inr \<lparr>lat = la, lon = lo, current_speed = None, free_flow_speed = None,
                 congestion_factor = None\<rparr>"
      unfolding fetch_congestion_read [of service n la lo st "JsonObject (FlowObject cur free)", OF read]
      by (simp add: invalid_sample_def)
  qed
  have failed: "service n (la, lo) = RequestException
        \<or> ((\<exists>b. service n (la, lo) = Response 429 b)
            \<and> service (n + 1) (la, lo) = RequestException)
        \<or> (\<exists>st data.
              ((service n (la, lo) = Response st (data) \<and> st \<noteq> 429)
          \<or> ((\<exists>b. service n (la, lo) = Response 429 b)
              \<and> service (n + 1) (la, lo) = Response st (data)))
              \<and> 400 \<le> st \<and> st < 600)
        \<longrightarrow> fst (fetch_congestion service n la lo) =
              Inr \<lparr>lat = la, lon = lo, current_speed = None, free_flow_speed = None,
                 congestion_factor = None\<rparr>"
  proof
    assume "service n (la, lo) = RequestException
        \<or> ((\<exists>b. service n (la, lo) = Response 429 b)
            \<and> service (n + 1) (la, lo) = RequestException)
        \<or> (\<exists>st data.
              ((service n (la, lo) = Response st (data) \<and> st \<noteq> 429)
          \<or> ((\<exists>b. service n (la, lo) = Response 429 b)
              \<and> service (n + 1) (la, lo) = Response st (data)))
              \<and> 400 \<le> st \<and> st < 600)"
    moreover have "?out = Inr (invalid_sample la lo)" if "service n (la, lo) = RequestException"
      using that by (simp add: fetch_congestion_fst get_with_retry_def)
    moreover have "?out = Inr (invalid_sample la lo)"
      if "service n (la, lo) = Response 429 b" and "service (n + 1) (la, lo) = RequestException" for b
      using that by (simp add: fetch_congestion_fst get_with_retry_def)
    moreover have "?out = Inr (invalid_sample la lo)"
      if read: "(service n (la, lo) = Response st data \<and> st \<noteq> 429)
          \<or> ((\<exists>b. service n (la, lo) = Response 429 b)
              \<and> service (n + 1) (la, lo) = Response st data)"
        and "400 \<le> st" and "st < 600" for st data
      unfolding fetch_congestion_read [of service n la lo st data, OF read]
      using that(2,3) by (simp add: read_response_def)
    ultimately have "?out = Inr (invalid_sample la lo)" by blast
    then show "?out = Inr \<lparr>lat = la, lon = lo, current_speed = None, free_flow_speed = None,
                 congestion_factor = None\<rparr>"
      by (simp add: invalid_sample_def)
  qed
  show ?thesis by (intro conjI valid returned invalid failed)
qed

text \<open>
  C7 at concrete services: speeds 90 and 100 give the factor 1/10; a first status 429
  followed by speeds 120 and 100 gives the factor 0 (clamped from \<open>-1/5\<close>); a free-flow
  speed of 0 and a request that raises give the sample without a factor.
\<close>

theorem flow_sample_invariant_witness:
  "fst (fetch_congestion (\<lambda>n p. Response 200 (JsonObject (FlowObject (Number 90) (Number 100)))) 0 1 2)
     = Inr \<lparr>lat = 1, lon = 2, current_speed = Some 90, free_flow_speed = Some 100,
            congestion_factor = Some (1 / 10)\<rparr>
   \<and> fst (fetch_congestion
          (\<lambda>n p. if n = 0 then Response 429 NotJson
                  else Response 200 (JsonObject (FlowObject (Number 120) (Number 100)))) 0 1 2)
     = Inr \<lparr>lat = 1, lon = 2, current_speed = Some 120, free_flow_speed = Some 100,
            congestion_factor = Some 0\<rparr>
   \<and> fst (fetch_congestion (\<lambda>n p. Response 200 (JsonObject (FlowObject (Number 50) (Number 0)))) 0 1 2)
     = Inr \<lparr>lat = 1, lon = 2, current_speed = None, free_flow_speed = None,
            congestion_factor = None\<rparr>
   \<and> fst (fetch_congestion (\<lambda>n p. RequestException) 0 1 2)
     = Inr \<lparr>lat = 1, lon = 2, current_speed = None, free_flow_speed = None,
            congestion_factor = None\<rparr>"
proof -
  let ?ok = "\<lambda>(n::nat) (p::real \<times> real). Response 200 (JsonObject (FlowObject (Number 90) (Number 100)))"
  let ?retry = "\<lambda>(n::nat) (p::real \<times> real). if n = 0 then Response 429 NotJson
                  else Response 200 (JsonObject (FlowObject (Number 120) (Number 100)))"
  let ?zero = "\<lambda>(n::nat) (p::real \<times> real). Response 200 (JsonObject (FlowObject (Number 50) (Number 0)))"
  let ?down = "\<lambda>(n::nat) (p::real \<times> real). RequestException"
  have "fst (fetch_congestion ?ok 0 1 2)
     = Inr \<lparr>lat = 1, lon = 2, current_speed = Some 90, free_flow_speed = Some 100,
            congestion_factor = Some (max 0 (min 1 (1 - 90 / 100)))\<rparr>"
    by (rule flow_sample_invariant [of ?ok 0 1 2, THEN conjunct1, rule_format, of 200 90 100]) simp
  then have a: "fst (fetch_congestion ?ok 0 1 2)
     = Inr \<lparr>lat = 1, lon = 2, current_speed = Some 90, free_flow_speed = Some 100,
            congestion_factor = Some (1 / 10)\<rparr>"
    by simp
  have "fst (fetch_congestion ?retry 0 1 2)
     = Inr \<lparr>lat = 1, lon = 2, current_speed = Some 120, free_flow_speed = Some 100,
            congestion_factor = Some (max 0 (min 1 (1 - 120 / 100)))\<rparr>"
    by (rule flow_sample_invariant [of ?retry 0 1 2, THEN conjunct1, rule_format, of 200 120 100]) simp
  then have b: "fst (fetch_congestion ?retry 0 1 2)
     = Inr \<lparr>lat = 1, lon = 2, current_speed = Some 120, free_flow_speed = Some 100,
            congestion_factor = Some 0\<rparr>"
    by simp
  have c: "fst (fetch_congestion ?zero 0 1 2)
     = Inr \<lparr>lat = 1, lon = 2, current_speed = None, free_flow_speed = None,
            congestion_factor = None\<rparr>"
    by (rule flow_sample_invariant [of ?zero 0 1 2, THEN conjunct2, THEN conjunct2, THEN conjunct1,
          rule_format, of 200 "Number 50" "Number 0"]) simp
  have d: "fst (fetch_congestion ?down 0 1 2)
     = Inr \<lparr>lat = 1, lon = 2, current_speed = None, free_flow_speed = None,
            congestion_factor = None\<rparr>"
    by (rule flow_sample_invariant [of ?down 0 1 2, THEN conjunct2, THEN conjunct2, THEN conjunct2,
          rule_format]) simp
  show ?thesis by (intro conjI a b c d)
qed

subsection \<open>Auxiliary facts about the scan loop\<close>

lemma fetch_congestion_coord:
  assumes "fst (fetch_congestion service n la lo) = Inr s"
  shows "lat s = la \<and> lon s = lo"
  using fetch_congestion_cases [of service n la lo] assms by (auto simp add: invalid_sample_def)

lemma scan_loop_Cons:
  "scan_loop service n ((la, lo) # rest) =
     (case fst (fetch_congestion service n la lo) of
        Inl e \<Rightarrow> (Inl e, snd (fetch_congestion service n la lo))
      | Inr result \<Rightarrow>
          (case fst (scan_loop service (snd (fetch_congestion service n la lo)) rest) of
             Inl e \<Rightarrow> (Inl e, snd (scan_loop service (snd (fetch_congestion service n la lo)) rest))
           | Inr results \<Rightarrow>
               (Inr (result # results),
                snd (scan_loop service (snd (fetch_congestion service n la lo)) rest))))"
  by (simp split: prod.splits sum.splits)

text \<open>
  When no lookup raises, the scan returns one record per grid point, in grid order,
  each with the coordinate it was asked for, after one or two requests per point.
\<close>

lemma scan_loop_complete:
  assumes "\<And>m la lo. \<exists>s. fst (fetch_congestion service m la lo) = Inr s"
  shows "\<exists>results. fst (scan_loop service n grid) = Inr results
           \<and> map (\<lambda>s. (lat s, lon s)) results = grid
           \<and> n + length grid \<le> snd (scan_loop service n grid)
           \<and> snd (scan_loop service n grid) \<le> n + 2 * length grid"
proof (induction grid arbitrary: n)
  case Nil
  show ?case by simp
next
  case (Cons p grid)
  obtain la lo where p: "p = (la, lo)" by (cases p)
  let ?m = "snd (fetch_congestion service n la lo)"
  from assms obtain s where s: "fst (fetch_congestion service n la lo) = Inr s" by blast
  have coord: "lat s = la \<and> lon s = lo" using s by (rule fetch_congestion_coord)
  have m: "n + 1 \<le> ?m \<and> ?m \<le> n + 2" by (rule fetch_congestion_requests)
  from Cons.IH [of ?m] obtain results where
    rest: "fst (scan_loop service ?m grid) = Inr results"
    and coords: "map (\<lambda>s. (lat s, lon s)) results = grid"
    and count: "?m + length grid \<le> snd (scan_loop service ?m grid)"
      "snd (scan_loop service ?m grid) \<le> ?m + 2 * length grid"
    by blast
  have "fst (scan_loop service n (p # grid)) = Inr (s # results)"
    and "snd (scan_loop service n (p # grid)) = snd (scan_loop service ?m grid)"
    unfolding p scan_loop_Cons by (simp_all add: s rest)
  then show ?case using coord coords count m p by simp
qed

text \<open>An exception that leaves the lookup of the first point leaves the scan.\<close>

lemma scan_loop_abort:
  assumes "fst (fetch_congestion service n la lo) = Inl e"
  shows "fst (scan_loop service n ((la, lo) # rest)) = Inl e"
  unfolding scan_loop_Cons by (simp add: assms)

subsection \<open>C9: the scan and replies that are not of the expected shape\<close>

text \<open>
  C9 states that the scan completes with one record per grid coordinate whatever the
  flow lookup does, a failure at a point giving a record without a congestion factor.
  \<open>fetch_congestion\<close> catches only \<open>requests.RequestException\<close>. A successful response
  whose \<open>flowSegmentData\<close> is \<open>null\<close> raises an \<open>AttributeError\<close>, a response whose body
  is a JSON list does the same, and a response whose speed is a string raises a
  \<open>TypeError\<close>; none of them is caught, and the loop has no \<open>try\<close>. With such a reply at
  the second of three grid points, the scan ends in the exception after two requests
  and returns no table.
\<close>

theorem scan_aborts_on_malformed_reply:
  "scan_traffic_grid
     (\<lambda>n p. if n = 1 then Response 200 (JsonObject FlowNotObject)
             else Response 200 (JsonObject (FlowObject (Number 30) (Number 60))))
     [(0, 0), (0, 1), (1, 0)] = (Inl AttributeError, 2)
   \<and> scan_traffic_grid
       (\<lambda>n p. if n = 1 then Response 200 NotObject
               else Response 200 (JsonObject (FlowObject (Number 30) (Number 60))))
       [(0, 0), (0, 1), (1, 0)] = (Inl AttributeError, 2)
   \<and> scan_traffic_grid
       (\<lambda>n p. if n = 1 then Response 200 (JsonObject (FlowObject (Number 30) NotNumber))
               else Response 200 (JsonObject (FlowObject (Number 30) (Number 60))))
       [(0, 0), (0, 1), (1, 0)] = (Inl TypeError, 2)"
  by code_simp

section \<open>Properties of the interpolation\<close>

subsection \<open>The neighbour search\<close>

lemma kd_query_length: "length (kd_query data x k) = k"
  by (simp add: kd_query_def Let_def)

lemma candidates_set:
  "(d2, i) \<in> set (sort_key fst (zip (map (\<lambda>p. sqdist p x) data) [0..<length data]))
   \<Longrightarrow> i < length data \<and> d2 = sqdist (data ! i) x"
  by (auto simp add: set_zip)

lemma kd_query_full:
  assumes "k \<le> length data"
  shows "kd_query data x k =
           map (\<lambda>(d2, i). (Finite (sqrt d2), i))
             (take k (sort_key fst (zip (map (\<lambda>p. sqdist p x) data) [0..<length data])))"
  using assms by (simp add: kd_query_def Let_def)

lemma kd_query_found:
  assumes "k \<le> length data" and "(d, i) \<in> set (kd_query data x k)"
  shows "i < length data \<and> d = Finite (sqrt (sqdist (data ! i) x))"
proof -
  from assms obtain d2 where
    mem: "(d2, i) \<in> set (take k (sort_key fst (zip (map (\<lambda>p. sqdist p x) data) [0..<length data])))"
    and d: "d = Finite (sqrt d2)"
    unfolding kd_query_full [OF assms(1)] by auto
  from mem have "(d2, i) \<in> set (sort_key fst (zip (map (\<lambda>p. sqdist p x) data) [0..<length data]))"
    by (rule in_set_takeD)
  then show ?thesis using candidates_set d by blast
qed

lemma kd_query_missing:
  assumes "length data < k"
  shows "(Infinity, length data) \<in> set (kd_query data x k)"
proof -
  have "0 < k - length (take k (sort_key fst (zip (map (\<lambda>p. sqdist p x) data) [0..<length data])))"
    using assms by simp
  then show ?thesis by (simp add: kd_query_def Let_def)
qed

subsection \<open>The weighted average\<close>

lemma idw_weight_pos: "0 < idw_weight (Finite r)"
  by (simp add: idw_weight_def)

lemma idw_congestion_index_error:
  assumes "(d, i) \<in> set nbrs" and "length tc \<le> i"
  shows "idw_congestion tc nbrs = Inl IndexError"
proof -
  have "i \<in> set (map snd nbrs)" using assms(1) by force
  then have "list_ex (\<lambda>i. length tc \<le> i) (map snd nbrs)"
    using assms(2) unfolding list_ex_iff by blast
  then show ?thesis by (simp only: idw_congestion_def if_True)
qed

lemma sum_list_pos_weights:
  assumes "ws \<noteq> []" and "\<And>w. w \<in> set ws \<Longrightarrow> 0 < (w::real)"
  shows "0 < sum_list ws"
  using assms by (induction ws) (auto intro: add_pos_nonneg sum_list_nonneg less_imp_le)

lemma idw_congestion_value:
  assumes "nbrs \<noteq> []"
    and "\<And>d i. (d, i) \<in> set nbrs \<Longrightarrow> i < length tc \<and> (\<exists>r. d = Finite r)"
  shows "0 < sum_list (map idw_weight (map fst nbrs))"
    and "idw_congestion tc nbrs =
          Inr (Some (sum_list (map (\<lambda>(c, w). c * w)
                 (zip (map (\<lambda>i. tc ! i) (map snd nbrs))
                      (map (\<lambda>w. w / sum_list (map idw_weight (map fst nbrs)))
                         (map idw_weight (map fst nbrs)))))))"
proof -
  have "\<And>w. w \<in> set (map idw_weight (map fst nbrs)) \<Longrightarrow> 0 < w"
    using assms(2) idw_weight_pos by fastforce
  moreover have "map idw_weight (map fst nbrs) \<noteq> []" using assms(1) by simp
  ultimately show pos: "0 < sum_list (map idw_weight (map fst nbrs))"
    by (rule sum_list_pos_weights [rotated])
  have "\<not> list_ex (\<lambda>i. length tc \<le> i) (map snd nbrs)"
    unfolding list_ex_iff using assms(2) by fastforce
  then show "idw_congestion tc nbrs =
          Inr (Some (sum_list (map (\<lambda>(c, w). c * w)
                 (zip (map (\<lambda>i. tc ! i) (map snd nbrs))
                      (map (\<lambda>w. w / sum_list (map idw_weight (map fst nbrs)))
                         (map idw_weight (map fst nbrs)))))))"
    using pos by (simp add: idw_congestion_def Let_def)
qed

subsection \<open>The interpolation as a whole\<close>

lemma traffic_lengths:
  "length (traffic_coords df) = length (traffic_valid df)"
  "length (traffic_congestion df) = length (traffic_valid df)"
  by (simp_all add: traffic_coords_def traffic_congestion_def)

lemma road_neighbours_length: "length (road_neighbours df x k) = k"
  by (simp add: road_neighbours_def kd_query_length)

lemma road_neighbours_found:
  assumes "k \<le> length (traffic_valid df)" and "(d, i) \<in> set (road_neighbours df x k)"
  shows "i < length (traffic_valid df) \<and> d = Finite (sqrt (sqdist (traffic_coords df ! i) x))"
  using kd_query_found [of k "traffic_coords df" d i x] assms
  by (simp add: road_neighbours_def traffic_lengths)

lemma idw_row_value:
  assumes "0 < k" and "k \<le> length (traffic_valid df)"
  shows "idw_congestion (traffic_congestion df) (kd_query (traffic_coords df) x k) =
           Inr (Some (sum_list (map (\<lambda>(c, w). c * w)
                  (zip (neighbor_congestion df x k) (neighbor_weights df x k)))))"
    and "0 < sum_list (map idw_weight (map fst (road_neighbours df x k)))"
proof -
  let ?nbrs = "road_neighbours df x k"
  have ne: "?nbrs \<noteq> []" using road_neighbours_length [of df x k] assms(1) by auto
  have ok: "\<And>d i. (d, i) \<in> set ?nbrs \<Longrightarrow>
              i < length (traffic_congestion df) \<and> (\<exists>r. d = Finite r)"
    using road_neighbours_found [OF assms(2)] by (simp add: traffic_lengths) blast
  show "0 < sum_list (map idw_weight (map fst ?nbrs))"
    using idw_congestion_value(1) [OF ne ok] by blast
  have "idw_congestion (traffic_congestion df) ?nbrs =
          Inr (Some (sum_list (map (\<lambda>(c, w). c * w)
                 (zip (map (\<lambda>i. traffic_congestion df ! i) (map snd ?nbrs))
                      (map (\<lambda>w. w / sum_list (map idw_weight (map fst ?nbrs)))
                         (map idw_weight (map fst ?nbrs)))))))"
    using idw_congestion_value(2) [OF ne ok] by blast
  then show "idw_congestion (traffic_congestion df) (kd_query (traffic_coords df) x k) =
           Inr (Some (sum_list (map (\<lambda>(c, w). c * w)
                  (zip (neighbor_congestion df x k) (neighbor_weights df x k)))))"
    by (simp add: neighbor_congestion_def neighbor_weights_def Let_def road_neighbours_def)
qed

lemma interpolate_enough_samples:
  assumes "0 < k" and "k \<le> length (traffic_valid df)" and "roads \<noteq> []"
  shows "interpolate_traffic_idw roads df k =
           Inr (map (\<lambda>x. Some (sum_list (map (\<lambda>(c, w). c * w)
                  (zip (neighbor_congestion df x k) (neighbor_weights df x k))))) roads)"
proof -
  have q: "tree_query (traffic_coords df) roads k =
             Inr (map (\<lambda>x. kd_query (traffic_coords df) x k) roads)"
    using assms(1,3) by (simp add: tree_query_def)
  have "map_result (idw_congestion (traffic_congestion df))
          (map (\<lambda>x. kd_query (traffic_coords df) x k) roads) =
        Inr (map (\<lambda>nb. projr (idw_congestion (traffic_congestion df) nb))
          (map (\<lambda>x. kd_query (traffic_coords df) x k) roads))"
    by (rule map_result_total) (auto simp add: idw_row_value(1) [OF assms(1,2)])
  then show ?thesis
    by (simp add: interpolate_traffic_idw_def q comp_def idw_row_value(1) [OF assms(1,2)])
qed

lemma map_result_first_error:
  assumes "xs \<noteq> []" and "f (hd xs) = Inl e"
  shows "map_result f xs = Inl e"
  using assms by (cases xs) simp_all

lemma interpolate_too_few_samples:
  assumes "length (traffic_valid df) < k" and "roads \<noteq> []"
  shows "interpolate_traffic_idw roads df k = Inl IndexError"
proof -
  have kpos: "k \<noteq> 0" using assms(1) by simp
  have q: "tree_query (traffic_coords df) roads k =
             Inr (map (\<lambda>x. kd_query (traffic_coords df) x k) roads)"
    using kpos assms(2) by (simp add: tree_query_def)
  have "(Infinity, length (traffic_coords df)) \<in> set (kd_query (traffic_coords df) (hd roads) k)"
    using assms(1) by (intro kd_query_missing) (simp add: traffic_lengths)
  then have "idw_congestion (traffic_congestion df) (kd_query (traffic_coords df) (hd roads) k)
               = Inl IndexError"
    by (rule idw_congestion_index_error) (simp add: traffic_lengths)
  then have "map_result (idw_congestion (traffic_congestion df))
          (map (\<lambda>x. kd_query (traffic_coords df) x k) roads) = Inl IndexError"
    using assms(2) by (intro map_result_first_error) (simp_all add: hd_map)
  then show ?thesis by (simp add: interpolate_traffic_idw_def q)
qed

subsection \<open>C4: fewer valid samples than \<open>k\<close>\<close>

text \<open>
  C4 states that with fewer than \<open>k\<close> valid samples the interpolation uses the samples
  that exist, and that with no valid sample every target is unknown, in both cases
  without raising. In the code the neighbour search pads the missing neighbours with
  the index \<open>len(data)\<close>, and reading the congestion array at that index raises. With
  one valid sample among two rows and \<open>k = 3\<close>, and with an empty table, the
  interpolation of a single road ends in an \<open>IndexError\<close>.
\<close>

theorem too_few_samples_raise:
  "interpolate_traffic_idw [(0, 0)]
     [\<lparr>lat = 0, lon = 0, current_speed = None, free_flow_speed = None,
       congestion_factor = Some 0.5\<rparr>,
      \<lparr>lat = 1, lon = 0, current_speed = None, free_flow_speed = None,
       congestion_factor = None\<rparr>] 3 = Inl IndexError
   \<and> interpolate_traffic_idw [(0, 0)] [] 3 = Inl IndexError"
  by (simp add: interpolate_traffic_idw_def tree_query_def kd_query_def traffic_coords_def
      traffic_congestion_def traffic_valid_def idw_congestion_def idw_weight_def sqdist_def
      Let_def list_ex_iff del: not_None_eq)

text \<open>
  C4, amended: for \<open>k \<ge> 1\<close> and at least one target, the interpolation returns a field
  exactly when there are at least \<open>k\<close> valid samples; the field then has one number
  (never unknown) per target. With fewer than \<open>k\<close> valid samples, none included, it
  raises an \<open>IndexError\<close>; no reduced \<open>k\<close> is used and no unknown value is produced.
\<close>

theorem interpolation_needs_k_valid_samples:
  assumes "0 < k" and "roads \<noteq> []"
  shows "(length (traffic_valid df) < k \<longrightarrow> interpolate_traffic_idw roads df k = Inl IndexError)
       \<and> (k \<le> length (traffic_valid df) \<longrightarrow>
            (\<exists>levels. interpolate_traffic_idw roads df k = Inr levels
               \<and> length levels = length roads \<and> None \<notin> set levels))"
proof (intro conjI impI)
  assume "length (traffic_valid df) < k"
  then show "interpolate_traffic_idw roads df k = Inl IndexError"
    using assms(2) by (rule interpolate_too_few_samples)
next
  assume "k \<le> length (traffic_valid df)"
  from interpolate_enough_samples [OF assms(1) this assms(2)]
  show "\<exists>levels. interpolate_traffic_idw roads df k = Inr levels
               \<and> length levels = length roads \<and> None \<notin> set levels"
    by auto
qed

text \<open>
  The amended C4 at concrete tables: two valid samples with \<open>k = 2\<close> give a field, one
  valid sample with \<open>k = 2\<close> raises.
\<close>

theorem interpolation_needs_k_valid_samples_witness:
  "(\<exists>levels. interpolate_traffic_idw [(0, 0)]
       [\<lparr>lat = 0, lon = 0, current_speed = None, free_flow_speed = None,
         congestion_factor = Some 0\<rparr>,
        \<lparr>lat = 1, lon = 0, current_speed = None, free_flow_speed = None,
         congestion_factor = Some 1\<rparr>] 2 = Inr levels
      \<and> length levels = 1 \<and> None \<notin> set levels)
   \<and> interpolate_traffic_idw [(0, 0)]
       [\<lparr>lat = 0, lon = 0, current_speed = None, free_flow_speed = None,
         congestion_factor = Some 0\<rparr>,
        \<lparr>lat = 1, lon = 0, current_speed = None, free_flow_speed = None,
         congestion_factor = None\<rparr>] 2 = Inl IndexError"
proof -
  let ?two = "[\<lparr>lat = 0, lon = 0, current_speed = None, free_flow_speed = None,
         congestion_factor = Some 0\<rparr>,
        \<lparr>lat = 1, lon = 0, current_speed = None, free_flow_speed = None,
         congestion_factor = Some (1::real)\<rparr>]"
  let ?one = "[\<lparr>lat = 0, lon = 0, current_speed = None, free_flow_speed = None,
         congestion_factor = Some 0\<rparr>,
        \<lparr>lat = 1, lon = 0, current_speed = None, free_flow_speed = None,
         congestion_factor = (None :: real option)\<rparr>]"
  have k: "0 < (2::nat)" and r: "[(0::real, 0::real)] \<noteq> []" by simp_all
  have two: "2 \<le> length (traffic_valid ?two)" and one: "length (traffic_valid ?one) < 2"
    by (simp_all add: traffic_valid_def)
  have a: "\<exists>levels. interpolate_traffic_idw [(0, 0)] ?two 2 = Inr levels
      \<and> length levels = length [(0::real, 0::real)] \<and> None \<notin> set levels"
    using interpolation_needs_k_valid_samples [OF k r, of ?two] two by blast
  have b: "interpolate_traffic_idw [(0, 0)] ?one 2 = Inl IndexError"
    using interpolation_needs_k_valid_samples [OF k r, of ?one] one by blast
  from a b show ?thesis by simp
qed

subsection \<open>Weighted sums\<close>

lemma sum_list_divide:
  "sum_list (map (\<lambda>w. w / W) ws) = sum_list ws / (W::real)"
  by (induction ws) (simp_all add: add_divide_distrib)

lemma weighted_sum_divide:
  "sum_list (map (\<lambda>(c, w). c * w) (zip cs (map (\<lambda>w. w / W) ws)))
     = sum_list (map (\<lambda>(c, w). c * w) (zip cs ws)) / (W::real)"
proof (induction cs arbitrary: ws)
  case Nil
  show ?case by simp
next
  case (Cons c cs)
  show ?case
  proof (cases ws)
    case Nil
    then show ?thesis by simp
  next
    case (Cons w ws')
    then show ?thesis using Cons.IH [of ws'] by (simp add: add_divide_distrib)
  qed
qed

lemma weighted_sum_upper:
  assumes "length cs = length ws"
    and "\<And>c. c \<in> set cs \<Longrightarrow> c \<le> hi"
    and "\<And>w. w \<in> set ws \<Longrightarrow> 0 \<le> (w::real)"
  shows "sum_list (map (\<lambda>(c, w). c * w) (zip cs ws)) \<le> hi * sum_list ws"
  using assms
proof (induction cs ws rule: list_induct2)
  case Nil
  show ?case by simp
next
  case (Cons c cs w ws)
  have "c * w \<le> hi * w" using Cons.prems by (simp add: mult_right_mono)
  moreover have "sum_list (map (\<lambda>(c, w). c * w) (zip cs ws)) \<le> hi * sum_list ws"
    using Cons.IH Cons.prems by simp
  ultimately show ?case by (simp add: distrib_left)
qed

lemma weighted_sum_lower:
  assumes "length cs = length ws"
    and "\<And>c. c \<in> set cs \<Longrightarrow> lo \<le> c"
    and "\<And>w. w \<in> set ws \<Longrightarrow> 0 \<le> (w::real)"
  shows "lo * sum_list ws \<le> sum_list (map (\<lambda>(c, w). c * w) (zip cs ws))"
  using assms
proof (induction cs ws rule: list_induct2)
  case Nil
  show ?case by simp
next
  case (Cons c cs w ws)
  have "lo * w \<le> c * w" using Cons.prems by (simp add: mult_right_mono)
  moreover have "lo * sum_list ws \<le> sum_list (map (\<lambda>(c, w). c * w) (zip cs ws))"
    using Cons.IH Cons.prems by simp
  ultimately show ?case by (simp add: distrib_left)
qed



subsection \<open>Neighbour values and weights of one road\<close>

lemma neighbor_lengths:
  "length (neighbor_congestion df x k) = k"
  "length (neighbor_weights df x k) = k"
  by (simp_all add: neighbor_congestion_def neighbor_weights_def Let_def road_neighbours_length)

lemma neighbor_weights_eq:
  "neighbor_weights df x k =
     map (\<lambda>w. w / sum_list (map idw_weight (map fst (road_neighbours df x k))))
       (map idw_weight (map fst (road_neighbours df x k)))"
  by (simp add: neighbor_weights_def Let_def)

lemma raw_weights_pos:
  assumes "k \<le> length (traffic_valid df)"
    and "w \<in> set (map idw_weight (map fst (road_neighbours df x k)))"
  shows "0 < w"
proof -
  from assms(2) obtain d i where "(d, i) \<in> set (road_neighbours df x k)" and "w = idw_weight d"
    by auto
  then show ?thesis using road_neighbours_found [OF assms(1)] idw_weight_pos by fastforce
qed

lemma neighbor_weights_sum:
  assumes "0 < k" and "k \<le> length (traffic_valid df)"
  shows "sum_list (neighbor_weights df x k) = 1"
proof -
  have "sum_list (map idw_weight (map fst (road_neighbours df x k))) \<noteq> 0"
    using idw_row_value(2) [OF assms, of x] by simp
  then show ?thesis
    unfolding neighbor_weights_eq sum_list_divide by (rule divide_self)
qed

lemma neighbor_weights_nonneg:
  assumes "0 < k" and "k \<le> length (traffic_valid df)" and "w \<in> set (neighbor_weights df x k)"
  shows "0 \<le> w"
proof -
  from assms(3) obtain u where u: "u \<in> set (map idw_weight (map fst (road_neighbours df x k)))"
    and w: "w = u / sum_list (map idw_weight (map fst (road_neighbours df x k)))"
    unfolding neighbor_weights_eq by auto
  have "0 < u" using raw_weights_pos [OF assms(2) u] .
  then show ?thesis using idw_row_value(2) [OF assms(1,2), of x] w by simp
qed

lemma idw_value_bounds:
  assumes "0 < k" and "k \<le> length (traffic_valid df)"
    and "\<And>c. c \<in> set (neighbor_congestion df x k) \<Longrightarrow> lo \<le> c \<and> c \<le> hi"
  shows "lo \<le> sum_list (map (\<lambda>(c, w). c * w) (zip (neighbor_congestion df x k) (neighbor_weights df x k)))"
    and "sum_list (map (\<lambda>(c, w). c * w) (zip (neighbor_congestion df x k) (neighbor_weights df x k))) \<le> hi"
proof -
  have len: "length (neighbor_congestion df x k) = length (neighbor_weights df x k)"
    by (simp add: neighbor_lengths)
  have nonneg: "\<And>w. w \<in> set (neighbor_weights df x k) \<Longrightarrow> 0 \<le> w"
    using neighbor_weights_nonneg [OF assms(1,2)] by blast
  have "lo * sum_list (neighbor_weights df x k)
          \<le> sum_list (map (\<lambda>(c, w). c * w) (zip (neighbor_congestion df x k) (neighbor_weights df x k)))"
    using assms(3) by (intro weighted_sum_lower [OF len] nonneg) simp
  then show "lo \<le> sum_list (map (\<lambda>(c, w). c * w) (zip (neighbor_congestion df x k) (neighbor_weights df x k)))"
    by (simp add: neighbor_weights_sum [OF assms(1,2)])
  have "sum_list (map (\<lambda>(c, w). c * w) (zip (neighbor_congestion df x k) (neighbor_weights df x k)))
          \<le> hi * sum_list (neighbor_weights df x k)"
    using assms(3) by (intro weighted_sum_upper [OF len] nonneg) simp
  then show "sum_list (map (\<lambda>(c, w). c * w) (zip (neighbor_congestion df x k) (neighbor_weights df x k))) \<le> hi"
    by (simp add: neighbor_weights_sum [OF assms(1,2)])
qed

lemma neighbor_congestion_is_sample:
  assumes "k \<le> length (traffic_valid df)" and "c \<in> set (neighbor_congestion df x k)"
  shows "\<exists>s \<in> set (traffic_valid df). congestion_factor s = Some c"
proof -
  from assms(2) obtain d i where mem: "(d, i) \<in> set (road_neighbours df x k)"
    and c: "c = traffic_congestion df ! i"
    unfolding neighbor_congestion_def by auto
  have i: "i < length (traffic_valid df)" using road_neighbours_found [OF assms(1) mem] by simp
  then have s: "traffic_valid df ! i \<in> set (traffic_valid df)" by simp
  then have "congestion_factor (traffic_valid df ! i) \<noteq> None" by (simp add: traffic_valid_def)
  moreover have "c = the (congestion_factor (traffic_valid df ! i))"
    using c i by (simp add: traffic_congestion_def)
  ultimately show ?thesis using s by force
qed

lemma interpolate_level_nth:
  assumes "0 < k" and "k \<le> length (traffic_valid df)" and "i < length roads"
  shows "\<exists>levels. interpolate_traffic_idw roads df k = Inr levels
           \<and> length levels = length roads
           \<and> levels ! i = Some (sum_list (map (\<lambda>(c, w). c * w)
                (zip (neighbor_congestion df (roads ! i) k) (neighbor_weights df (roads ! i) k))))"
proof -
  have "roads \<noteq> []" using assms(3) by auto
  from interpolate_enough_samples [OF assms(1,2) this] show ?thesis
    using assms(3) by simp
qed


subsection \<open>C8: the inverse-distance weighted average\<close>



subsection \<open>C10: the level is a convex combination\<close>



subsection \<open>The nearest neighbour\<close>

lemma sorted_head_least:
  assumes "sorted (map f xs)" and "y \<in> set xs"
  shows "f (hd xs) \<le> f y"
  using assms by (cases xs) auto

lemma kd_query_head_nearest:
  assumes "0 < k" and "data \<noteq> []"
  shows "\<exists>n. n < length data
           \<and> kd_query data x k ! 0 = (Finite (sqrt (sqdist (data ! n) x)), n)
           \<and> (\<forall>m. m < length data \<longrightarrow> sqdist (data ! n) x \<le> sqdist (data ! m) x)"
proof -
  let ?cands = "zip (map (\<lambda>p. sqdist p x) data) [0..<length data]"
  let ?sorted = "sort_key fst ?cands"
  have "length ?sorted = length data" by simp
  then have ne: "?sorted \<noteq> []" using assms(2) by (metis length_0_conv)
  obtain d2 n where hd: "hd ?sorted = (d2, n)" by (cases "hd ?sorted")
  have "(d2, n) \<in> set ?sorted" using ne hd by (metis hd_in_set)
  then have n: "n < length data" and d2: "d2 = sqdist (data ! n) x"
    using candidates_set by blast+
  have least: "\<forall>m. m < length data \<longrightarrow> sqdist (data ! n) x \<le> sqdist (data ! m) x"
  proof (intro allI impI)
    fix m assume m: "m < length data"
    have "(sqdist (data ! m) x, m) \<in> set ?cands"
      using m by (force simp add: set_zip)
    then have "(sqdist (data ! m) x, m) \<in> set ?sorted" by simp
    then have "fst (hd ?sorted) \<le> fst (sqdist (data ! m) x, m)"
      by (intro sorted_head_least) simp_all
    then show "sqdist (data ! n) x \<le> sqdist (data ! m) x" using hd d2 by simp
  qed
  have "take k ?sorted ! 0 = hd ?sorted"
    using assms(1) ne by (simp add: hd_conv_nth)
  moreover have "take k ?sorted \<noteq> []" using assms(1) ne by simp
  ultimately have "kd_query data x k ! 0 = (Finite (sqrt d2), n)"
    using hd assms(2) by (simp add: kd_query_def Let_def nth_append)
  then show ?thesis using n d2 least by blast
qed

lemma sqdist_zero_iff: "sqdist a b = 0 \<longleftrightarrow> a = b"
  by (cases a, cases b) (simp add: sqdist_def)

lemma sqdist_nonneg: "0 \<le> sqdist a b"
  by (simp add: sqdist_def)

lemma coincident_sample_is_first_neighbour:
  assumes "0 < k" and "s \<in> set (traffic_valid df)" and "(lat s, lon s) = x"
  shows "\<exists>n. n < length (traffic_valid df)
           \<and> road_neighbours df x k ! 0 = (Finite 0, n)
           \<and> traffic_coords df ! n = x"
proof -
  from assms(2) obtain j where j: "j < length (traffic_valid df)" and sj: "traffic_valid df ! j = s"
    by (auto simp add: in_set_conv_nth)
  then have cj: "traffic_coords df ! j = x" using assms(3) by (simp add: traffic_coords_def)
  have ne: "traffic_coords df \<noteq> []" using j by (auto simp add: traffic_coords_def)
  from kd_query_head_nearest [OF assms(1) ne, of x] obtain n where
    n: "n < length (traffic_coords df)"
    and first: "kd_query (traffic_coords df) x k ! 0
                  = (Finite (sqrt (sqdist (traffic_coords df ! n) x)), n)"
    and least: "\<forall>m. m < length (traffic_coords df) \<longrightarrow>
                  sqdist (traffic_coords df ! n) x \<le> sqdist (traffic_coords df ! m) x"
    by blast
  have "sqdist (traffic_coords df ! n) x \<le> sqdist (traffic_coords df ! j) x"
    using least j by (simp add: traffic_lengths)
  also have "sqdist (traffic_coords df ! j) x = 0" using cj by (simp add: sqdist_zero_iff)
  finally have zero: "sqdist (traffic_coords df ! n) x = 0"
    using sqdist_nonneg [of "traffic_coords df ! n" x] by simp
  then have "traffic_coords df ! n = x" by (simp add: sqdist_zero_iff)
  then show ?thesis using n first zero by (auto simp add: road_neighbours_def traffic_lengths)
qed

lemma sum_list_bounded:
  assumes "\<And>u. u \<in> set us \<Longrightarrow> u \<le> (b::real)"
  shows "sum_list us \<le> real (length us) * b"
  using assms by (induction us) (auto simp add: distrib_right intro: add_mono)

lemma coincident_error_bound:
  assumes "0 < k" and "k \<le> length (traffic_valid df)"
    and first: "road_neighbours df x k ! 0 = (Finite 0, n)"
    and unit: "\<forall>s \<in> set (traffic_valid df). \<forall>c. congestion_factor s = Some c \<longrightarrow> 0 \<le> c \<and> c \<le> 1"
    and "0 < \<delta>"
    and far: "\<forall>nb \<in> set (tl (road_neighbours df x k)). \<exists>r. fst nb = Finite r \<and> \<delta> \<le> r"
  shows "\<bar>sum_list (map (\<lambda>(c, w). c * w) (zip (neighbor_congestion df x k) (neighbor_weights df x k)))
           - traffic_congestion df ! n\<bar> \<le> real (k - 1) / (\<delta> * 10 ^ 10)"
proof -
  let ?nbrs = "road_neighbours df x k"
  let ?rest = "tl ?nbrs"
  let ?tc = "traffic_congestion df"
  let ?us = "map idw_weight (map fst ?rest)"
  let ?cs = "map (\<lambda>i. ?tc ! i) (map snd ?rest)"
  let ?c0 = "?tc ! n"
  let ?w0 = "(10::real) ^ 10"
  let ?U = "sum_list ?us"
  let ?S = "sum_list (map (\<lambda>(c, w). c * w) (zip ?cs ?us))"
  have len: "length ?nbrs = k" by (rule road_neighbours_length)
  then have "?nbrs \<noteq> []" using assms(1) by auto
  then have "?nbrs = ?nbrs ! 0 # ?rest" by (cases ?nbrs) simp_all
  then have split: "?nbrs = (Finite 0, n) # ?rest" using first by simp
  have lrest: "length ?rest = k - 1" using len by simp
  have w0: "idw_weight (Finite 0) = ?w0" by (simp add: idw_weight_def)
  have raw: "map idw_weight (map fst ?nbrs) = ?w0 # ?us"
    by (subst split) (simp add: w0)
  have nc: "neighbor_congestion df x k = ?c0 # ?cs"
    unfolding neighbor_congestion_def by (subst split) simp
  have total: "sum_list (map idw_weight (map fst ?nbrs)) = ?w0 + ?U"
    unfolding raw by simp
  have us_bounds: "0 \<le> u \<and> u \<le> 1 / \<delta>" if "u \<in> set ?us" for u
  proof -
    from that obtain nb where nb: "nb \<in> set ?rest" and u: "u = idw_weight (fst nb)" by auto
    from far nb obtain r where r: "fst nb = Finite r" and d: "\<delta> \<le> r" by blast
    have "\<delta> \<le> max r (1 / 10 ^ 10)" using d by simp
    then have "1 / max r (1 / 10 ^ 10) \<le> 1 / \<delta>"
      using \<open>0 < \<delta>\<close> by (intro divide_left_mono) (auto simp add: max_def)
    moreover have "0 \<le> 1 / max r (1 / 10 ^ 10)" by (simp add: max_def)
    ultimately show ?thesis unfolding u r by (simp add: idw_weight_def)
  qed
  have U_nonneg: "0 \<le> ?U" using us_bounds by (intro sum_list_nonneg) blast
  have "?U \<le> real (length ?us) * (1 / \<delta>)"
    using us_bounds by (intro sum_list_bounded) blast
  then have U_le: "?U \<le> real (k - 1) / \<delta>" using lrest by simp
  have c_unit: "0 \<le> c \<and> c \<le> 1" if "c \<in> set (neighbor_congestion df x k)" for c
    using neighbor_congestion_is_sample [OF assms(2) that] unit by blast
  have c0_unit: "0 \<le> ?c0 \<and> ?c0 \<le> 1" using c_unit [of ?c0] nc by simp
  have cs_unit: "\<And>c. c \<in> set ?cs \<Longrightarrow> 0 \<le> c \<and> c \<le> 1"
    using c_unit nc by (metis list.set_intros(2))
  have lens: "length ?cs = length ?us" by simp
  have "0 * ?U \<le> ?S"
    using cs_unit us_bounds by (intro weighted_sum_lower [OF lens]) blast+
  then have S_lo: "0 \<le> ?S" by simp
  have "?S \<le> 1 * ?U"
    using cs_unit us_bounds by (intro weighted_sum_upper [OF lens]) blast+
  then have S_hi: "?S \<le> ?U" by simp
  have "0 \<le> ?c0 * ?U" using c0_unit U_nonneg by simp
  moreover have "?c0 * ?U \<le> 1 * ?U" using c0_unit U_nonneg by (intro mult_right_mono) simp_all
  ultimately have diff: "\<bar>?S - ?c0 * ?U\<bar> \<le> ?U" using S_lo S_hi by simp
  have Wpos: "0 < ?w0 + ?U" using U_nonneg by (simp add: add_pos_nonneg)
  have "sum_list (map (\<lambda>(c, w). c * w) (zip (neighbor_congestion df x k) (neighbor_weights df x k)))
          = (?c0 * ?w0 + ?S) / (?w0 + ?U)"
    unfolding neighbor_weights_eq weighted_sum_divide total unfolding nc raw by simp
  also have "\<dots> - ?c0 = (?S - ?c0 * ?U) / (?w0 + ?U)"
    using Wpos by (simp add: field_simps)
  finally have "\<bar>sum_list (map (\<lambda>(c, w). c * w) (zip (neighbor_congestion df x k) (neighbor_weights df x k)))
           - ?c0\<bar> = \<bar>?S - ?c0 * ?U\<bar> / (?w0 + ?U)"
    using Wpos by simp
  also have "\<dots> \<le> ?U / (?w0 + ?U)"
    using diff Wpos by (simp add: divide_right_mono)
  also have "\<dots> \<le> ?U / ?w0"
    using U_nonneg by (intro divide_left_mono) (simp_all add: add_pos_nonneg)
  also have "\<dots> \<le> (real (k - 1) / \<delta>) / ?w0"
    using U_le by (simp add: divide_right_mono)
  also have "\<dots> = real (k - 1) / (\<delta> * 10 ^ 10)" by simp
  finally show ?thesis .
qed

subsection \<open>C5: a target on a sample\<close>

text \<open>
  C5 states that a target whose coordinate equals that of a valid sample receives that
  sample's congestion factor exactly, also for \<open>k > 1\<close>. The coincident sample's
  distance 0 is raised to \<open>1e-10\<close>, so its weight is \<open>1e10\<close> and the other neighbours
  keep their share: with a sample of factor 0 at the target, a second sample of factor 1
  at distance 1 and \<open>k = 2\<close>, the level is \<open>1 / (1e10 + 1)\<close>, not 0.
\<close>

theorem coincident_target_is_not_exact:
  "interpolate_traffic_idw [(0, 0)]
     [\<lparr>lat = 0, lon = 0, current_speed = None, free_flow_speed = None,
       congestion_factor = Some 0\<rparr>,
      \<lparr>lat = 1, lon = 0, current_speed = None, free_flow_speed = None,
       congestion_factor = Some 1\<rparr>] 2 = Inr [Some (1 / (10 ^ 10 + 1))]
   \<and> Some (1 / (10 ^ 10 + 1)) \<noteq> Some (0::real)"
  by (simp add: interpolate_traffic_idw_def tree_query_def kd_query_def traffic_coords_def
      traffic_congestion_def traffic_valid_def idw_congestion_def idw_weight_def sqdist_def
      Let_def list_ex_iff del: not_None_eq)

text \<open>
  C5, amended: with at least \<open>k \<ge> 1\<close> valid samples, a target whose coordinate equals
  that of a valid sample receives a number (no division error and no \<open>NaN\<close>): its
  nearest neighbour is a valid sample at the target's coordinate, at distance 0, and
  the level lies between the least and the greatest congestion factor of the \<open>k\<close>
  neighbours. For \<open>k = 1\<close> the level is exactly the congestion factor of a valid sample
  at the target's coordinate. For any \<open>k\<close>, when the congestion factors of the valid
  samples lie in \<open>[0, 1]\<close> and the other \<open>k - 1\<close> neighbours are at a distance of at
  least \<open>\<delta> > 0\<close>, the level differs from the congestion factor of the coincident
  neighbour by at most \<open>(k - 1) / (\<delta> * 1e10)\<close>.
\<close>

theorem coincident_target_level:
  assumes "0 < k" and "k \<le> length (traffic_valid df)" and "i < length roads"
    and "s \<in> set (traffic_valid df)" and "(lat s, lon s) = roads ! i"
  shows "\<exists>levels v n. interpolate_traffic_idw roads df k = Inr levels
     \<and> levels ! i = Some v
     \<and> n < length (traffic_valid df)
     \<and> road_neighbours df (roads ! i) k ! 0 = (Finite 0, n)
     \<and> traffic_coords df ! n = roads ! i
     \<and> Min (set (neighbor_congestion df (roads ! i) k)) \<le> v
     \<and> v \<le> Max (set (neighbor_congestion df (roads ! i) k))
     \<and> (k = 1 \<longrightarrow> v = traffic_congestion df ! n
           \<and> (\<exists>s' \<in> set (traffic_valid df).
                 (lat s', lon s') = roads ! i \<and> congestion_factor s' = Some v))
     \<and> (\<forall>\<delta>. 0 < \<delta>
           \<and> (\<forall>s \<in> set (traffic_valid df). \<forall>c. congestion_factor s = Some c
                  \<longrightarrow> 0 \<le> c \<and> c \<le> 1)
           \<and> (\<forall>nb \<in> set (tl (road_neighbours df (roads ! i) k)).
                  \<exists>r. fst nb = Finite r \<and> \<delta> \<le> r)
           \<longrightarrow> \<bar>v - traffic_congestion df ! n\<bar> \<le> real (k - 1) / (\<delta> * 10 ^ 10))"
proof -
  let ?x = "roads ! i"
  let ?nc = "neighbor_congestion df ?x k"
  let ?v = "sum_list (map (\<lambda>(c, w). c * w) (zip ?nc (neighbor_weights df ?x k)))"
  from interpolate_level_nth [OF assms(1,2,3)] obtain levels where
    res: "interpolate_traffic_idw roads df k = Inr levels" and lev: "levels ! i = Some ?v"
    by blast
  from coincident_sample_is_first_neighbour [OF assms(1,4,5)] obtain n where
    n: "n < length (traffic_valid df)"
    and first: "road_neighbours df ?x k ! 0 = (Finite 0, n)"
    and at: "traffic_coords df ! n = ?x"
    by blast
  have b: "\<And>c. c \<in> set ?nc \<Longrightarrow> Min (set ?nc) \<le> c \<and> c \<le> Max (set ?nc)" by simp
  have lo: "Min (set ?nc) \<le> ?v" and hi: "?v \<le> Max (set ?nc)"
    using idw_value_bounds(1) [OF assms(1,2) b] idw_value_bounds(2) [OF assms(1,2) b] by blast+
  have one: "k = 1 \<longrightarrow> ?v = traffic_congestion df ! n
           \<and> (\<exists>s' \<in> set (traffic_valid df). (lat s', lon s') = ?x \<and> congestion_factor s' = Some ?v)"
  proof
    assume k1: "k = 1"
    have "length (road_neighbours df ?x k) = 1" using k1 by (simp add: road_neighbours_length)
    then have "road_neighbours df ?x k = [road_neighbours df ?x k ! 0]"
      by (cases "road_neighbours df ?x k") simp_all
    then have nbrs: "road_neighbours df ?x k = [(Finite 0, n)]" using first by simp
    have "?nc = [traffic_congestion df ! n]"
      unfolding neighbor_congestion_def nbrs by simp
    then have v: "?v = traffic_congestion df ! n" using lo hi by simp
    let ?s = "traffic_valid df ! n"
    have mem: "?s \<in> set (traffic_valid df)" using n by simp
    then have "congestion_factor ?s \<noteq> None" by (simp add: traffic_valid_def)
    then have "congestion_factor ?s = Some (traffic_congestion df ! n)"
      using n by (auto simp add: traffic_congestion_def)
    moreover have "(lat ?s, lon ?s) = ?x" using at n by (simp add: traffic_coords_def)
    ultimately show "?v = traffic_congestion df ! n
           \<and> (\<exists>s' \<in> set (traffic_valid df). (lat s', lon s') = ?x \<and> congestion_factor s' = Some ?v)"
      using v mem by auto
  qed
  have bound: "\<forall>\<delta>. 0 < \<delta>
           \<and> (\<forall>s \<in> set (traffic_valid df). \<forall>c. congestion_factor s = Some c
                  \<longrightarrow> 0 \<le> c \<and> c \<le> 1)
           \<and> (\<forall>nb \<in> set (tl (road_neighbours df ?x k)). \<exists>r. fst nb = Finite r \<and> \<delta> \<le> r)
           \<longrightarrow> \<bar>?v - traffic_congestion df ! n\<bar> \<le> real (k - 1) / (\<delta> * 10 ^ 10)"
  proof (intro allI impI)
    fix \<delta> :: real
    assume a: "0 < \<delta>
           \<and> (\<forall>s \<in> set (traffic_valid df). \<forall>c. congestion_factor s = Some c
                  \<longrightarrow> 0 \<le> c \<and> c \<le> 1)
           \<and> (\<forall>nb \<in> set (tl (road_neighbours df ?x k)). \<exists>r. fst nb = Finite r \<and> \<delta> \<le> r)"
    from a have pos: "0 < \<delta>" by (rule conjunct1)
    from a have unit: "\<forall>s \<in> set (traffic_valid df). \<forall>c. congestion_factor s = Some c
                  \<longrightarrow> 0 \<le> c \<and> c \<le> 1"
      by (elim conjE)
    from a have far: "\<forall>nb \<in> set (tl (road_neighbours df ?x k)). \<exists>r. fst nb = Finite r \<and> \<delta> \<le> r"
      by (elim conjE)
    show "\<bar>?v - traffic_congestion df ! n\<bar> \<le> real (k - 1) / (\<delta> * 10 ^ 10)"
      by (rule coincident_error_bound [OF assms(1,2) first unit pos far])
  qed
  show ?thesis
    by (intro exI [of _ levels] exI [of _ ?v] exI [of _ n] conjI res lev n first at lo hi one bound)
qed

text \<open>
  The amended C5 at a concrete table: the road at the origin lies on the sample with
  congestion factor 0.3; with \<open>k = 1\<close> its level is 0.3.
\<close>

theorem coincident_target_level_witness:
  "\<exists>levels. interpolate_traffic_idw [(0, 0)]
       [\<lparr>lat = 0, lon = 0, current_speed = None, free_flow_speed = None,
         congestion_factor = Some 0.3\<rparr>,
        \<lparr>lat = 1, lon = 0, current_speed = None, free_flow_speed = None,
         congestion_factor = Some 0.9\<rparr>] 1 = Inr levels
     \<and> levels ! 0 = Some 0.3"
proof -
  let ?s = "\<lparr>lat = 0, lon = 0, current_speed = None, free_flow_speed = None,
         congestion_factor = Some (0.3::real)\<rparr>"
  let ?t = "\<lparr>lat = 1, lon = 0, current_speed = None, free_flow_speed = None,
         congestion_factor = Some (0.9::real)\<rparr>"
  let ?df = "[?s, ?t]"
  let ?roads = "[(0::real, 0::real)]"
  have valid: "traffic_valid ?df = [?s, ?t]"
    by (simp add: traffic_valid_def del: not_None_eq)
  have k: "0 < (1::nat)" and i: "0 < length ?roads" by simp_all
  have n: "1 \<le> length (traffic_valid ?df)" unfolding valid by simp
  have mem: "?s \<in> set (traffic_valid ?df)" unfolding valid by simp
  have at: "(lat ?s, lon ?s) = ?roads ! 0" by simp
  from coincident_target_level [OF k n i mem at]
  obtain levels v where res: "interpolate_traffic_idw ?roads ?df 1 = Inr levels"
    and lev: "levels ! 0 = Some v"
    and ex: "\<exists>s' \<in> set (traffic_valid ?df).
                 (lat s', lon s') = ?roads ! 0 \<and> congestion_factor s' = Some v"
    by blast
  from ex have "v = 0.3" unfolding valid by auto
  then show ?thesis using res lev by blast
qed

end
